theory Spec2Isabelle
  imports Main "HOL-Library.Monad_Syntax"
begin

text \<open>
  A model of the cache plugin in \<open>src/index.ts\<close>: the functions that derive tags, keys
  and revalidation times, the codec \<open>transformDates\<close> / \<open>restoreDates\<close>, the query hook
  \<open>onQuery\<close> and the mutation hook \<open>afterEntityMutation\<close>. Pure functions of the source
  are functions here; the hooks pass a world (database, cache store, events) along; what
  the source can throw is an \<open>error\<close> value on the left of a sum. The debug log of the
  plugin (\<open>console.log\<close> when \<open>debug\<close> is set) is left out.
\<close>

section \<open>JavaScript values\<close>

text \<open>
  Strings are \<open>string\<close> (byte lists); model names, field names, operation names and tags
  are ASCII in every schema the plugin reads, and \<open>toLowerCase\<close> is modelled on the
  ASCII letters (other bytes are left as they are).

  A value of type \<open>unknown\<close> in the source is a \<open>jsval\<close>:
  \<^item> \<open>JNum i\<close> is the number with the integer value \<open>i\<close> (fractions, NaN and the
    infinities are outside the model);
  \<^item> \<open>JDate d\<close> is a \<open>Date\<close> object;
  \<^item> \<open>JDecimal s ps\<close> is a decimal-like object (it has a \<open>toFixed\<close> method and a
    \<open>d\<close> property, which is all \<open>transformDates\<close> looks at): \<open>s\<close> is what its
    \<open>toString()\<close> returns and \<open>ps\<close> are its own enumerable properties;
  \<^item> \<open>JArr xs\<close> is a dense array;
  \<^item> \<open>JObj kvs\<close> is a plain object, \<open>kvs\<close> being its own enumerable properties in
    the order \<open>Object.entries\<close> lists them (so the keys of a \<open>JObj\<close> are distinct).
\<close>

datatype jsdate =
  InvalidDate
  | UTCDate (year: int) (month: nat) (day: nat) (hours: nat) (minutes: nat) (seconds: nat) (millis: nat)

datatype jsval =
  JUndefined
  | JNull
  | JBool bool
  | JNum int
  | JStr string
  | JDate jsdate
  | JDecimal string "(string \<times> jsval) list"
  | JArr "jsval list"
  | JObj "(string \<times> jsval) list"

datatype jstype = TUndefined | TObject | TBoolean | TNumber | TString

fun typeof :: "jsval \<Rightarrow> jstype" where
  "typeof JUndefined = TUndefined"
| "typeof JNull = TObject"
| "typeof (JBool b) = TBoolean"
| "typeof (JNum n) = TNumber"
| "typeof (JStr s) = TString"
| "typeof (JDate d) = TObject"
| "typeof (JDecimal s ps) = TObject"
| "typeof (JArr xs) = TObject"
| "typeof (JObj kvs) = TObject"

text \<open>Truthiness, as \<open>!v\<close>, \<open>v && ...\<close> and \<open>if (v)\<close> test it.\<close>

fun truthy :: "jsval \<Rightarrow> bool" where
  "truthy JUndefined = False"
| "truthy JNull = False"
| "truthy (JBool b) = b"
| "truthy (JNum n) = (n \<noteq> 0)"
| "truthy (JStr s) = (s \<noteq> [])"
| "truthy (JDate d) = True"
| "truthy (JDecimal s ps) = True"
| "truthy (JArr xs) = True"
| "truthy (JObj kvs) = True"

text \<open>\<open>Array.isArray\<close>.\<close>

fun isArray :: "jsval \<Rightarrow> bool" where
  "isArray (JArr xs) = True"
| "isArray v = False"

subsection \<open>Strings\<close>

definition toLowerCase_char :: "char \<Rightarrow> char" where
  "toLowerCase_char c =
     (let n = (of_char c :: nat) in if 65 \<le> n \<and> n \<le> 90 then char_of (n + 32) else c)"

definition toLowerCase :: "string \<Rightarrow> string" where
  "toLowerCase s = map toLowerCase_char s"

definition digit_char :: "nat \<Rightarrow> char" where
  "digit_char d = char_of (48 + d)"

text \<open>The decimal digits of a natural number, most significant first.\<close>

fun nat_digits :: "nat \<Rightarrow> string" where
  "nat_digits n = (if n < 10 then [digit_char n] else nat_digits (n div 10) @ [digit_char (n mod 10)])"

declare nat_digits.simps [simp del]

text \<open>\<open>String(n)\<close> for an integer-valued number.\<close>

definition Number_toString :: "int \<Rightarrow> string" where
  "Number_toString i = (if i < 0 then CHR ''-'' # nat_digits (nat (- i)) else nat_digits (nat i))"

subsection \<open>Property access\<close>

text \<open>
  \<open>Object.entries(v)\<close> for a value with \<open>typeof v = 'object'\<close> that is not null: the
  indices of an array are its keys, a \<open>Date\<close> has no own enumerable property.
\<close>

fun index_entries :: "nat \<Rightarrow> jsval list \<Rightarrow> (string \<times> jsval) list" where
  "index_entries i [] = []"
| "index_entries i (x # xs) = (nat_digits i, x) # index_entries (Suc i) xs"

fun Object_entries :: "jsval \<Rightarrow> (string \<times> jsval) list" where
  "Object_entries (JObj kvs) = kvs"
| "Object_entries (JArr xs) = index_entries 0 xs"
| "Object_entries (JDecimal s ps) = ps"
| "Object_entries v = []"

text \<open>\<open>v.k\<close> (\<open>v[k]\<close>) on a value that is not null or undefined; a missing property is undefined.\<close>

definition getProp :: "jsval \<Rightarrow> string \<Rightarrow> jsval" where
  "getProp v k = (case map_of (Object_entries v) k of Some x \<Rightarrow> x | None \<Rightarrow> JUndefined)"

text \<open>\<open>k in v\<close> for the property names the plugin asks about.\<close>

definition hasProp :: "jsval \<Rightarrow> string \<Rightarrow> bool" where
  "hasProp v k = (map_of (Object_entries v) k \<noteq> None)"

text \<open>
  \<open>Object.fromEntries\<close>: the pairs are stored one after the other; a key that is already
  there keeps its place and takes the new value.
\<close>

fun upsert :: "string \<Rightarrow> jsval \<Rightarrow> (string \<times> jsval) list \<Rightarrow> (string \<times> jsval) list" where
  "upsert k v [] = [(k, v)]"
| "upsert k v ((k', v') # kvs) = (if k = k' then (k', v) # kvs else (k', v') # upsert k v kvs)"

definition Object_fromEntries :: "(string \<times> jsval) list \<Rightarrow> jsval" where
  "Object_fromEntries es = JObj (fold (\<lambda>(k, v) acc. upsert k v acc) es [])"

section \<open>Life profiles\<close>

text \<open>\<open>CacheLifeProfile\<close> is a union of string literals; at run time it is a string.\<close>

type_synonym CacheLifeProfile = string

definition getCacheRevalidateSeconds :: "CacheLifeProfile \<Rightarrow> nat" where
  "getCacheRevalidateSeconds profile =
     (if profile = ''seconds'' then 1
      else if profile = ''minutes'' then 60
      else if profile = ''hours'' then 3600
      else if profile = ''days'' then 86400
      else if profile = ''weeks'' then 604800
      else if profile = ''max'' then 31536000
      else 3600)"

section \<open>Schema\<close>

text \<open>
  \<open>schema.models\<close> is imported from the generated schema module; every function below
  that reads it takes it as the parameter \<open>S\<close>. Records of the schema keep the order of
  their properties (\<open>Object.values\<close> and \<open>Object.entries\<close> follow it), so they are
  association lists.
\<close>

record ModelAttributeArg =
  arg_name :: string
  arg_value :: jsval

record ModelAttribute =
  attr_name :: string
  attr_args :: "ModelAttributeArg list option"

record Relation =
  rel_opposite :: "string option"
  rel_fields :: "string list option"
  rel_references :: "string list option"

record FieldDefinition =
  field_name :: string
  field_type :: string
  field_relation :: "Relation option"

record ModelDefinition =
  model_name :: string
  model_fields :: "(string \<times> FieldDefinition) list option"
  model_attributes :: "ModelAttribute list option"

type_synonym schema = "(string \<times> ModelDefinition) list"

definition getModelAttributes :: "schema \<Rightarrow> string \<Rightarrow> ModelAttribute list" where
  "getModelAttributes S modelName =
     (case map_of S modelName of
        None \<Rightarrow> []
      | Some m \<Rightarrow> (case model_attributes m of None \<Rightarrow> [] | Some as \<Rightarrow> as))"

definition getModelFields :: "schema \<Rightarrow> string \<Rightarrow> (string \<times> FieldDefinition) list" where
  "getModelFields S modelName =
     (case map_of S modelName of
        None \<Rightarrow> []
      | Some m \<Rightarrow> (case model_fields m of None \<Rightarrow> [] | Some fs \<Rightarrow> fs))"

definition getDateTimeFields :: "schema \<Rightarrow> string \<Rightarrow> string set" where
  "getDateTimeFields S modelName =
     set (map fst (filter (\<lambda>(fieldName, field). field_type field = ''DateTime'') (getModelFields S modelName)))"

definition getDecimalFields :: "schema \<Rightarrow> string \<Rightarrow> string set" where
  "getDecimalFields S modelName =
     set (map fst (filter (\<lambda>(fieldName, field). field_type field = ''Decimal'') (getModelFields S modelName)))"

definition getRelatedModels :: "schema \<Rightarrow> string \<Rightarrow> string list" where
  "getRelatedModels S modelName =
     map (\<lambda>(fieldName, field). field_type field)
       (filter (\<lambda>(fieldName, field). field_relation field \<noteq> None) (getModelFields S modelName))"

definition hasExcludeAttribute :: "schema \<Rightarrow> string \<Rightarrow> bool" where
  "hasExcludeAttribute S modelName =
     list_ex (\<lambda>attr. attr_name attr = ''@@cache.exclude'') (getModelAttributes S modelName)"

text \<open>
  \<open>tagsAttr?.args?.[0]?.value\<close>: the value of the first argument of the first attribute with
  the name, undefined when any link of the chain is missing.
\<close>

definition firstArgValue :: "ModelAttribute option \<Rightarrow> jsval" where
  "firstArgValue a =
     (case a of
        None \<Rightarrow> JUndefined
      | Some attr \<Rightarrow>
          (case attr_args attr of
             None \<Rightarrow> JUndefined
           | Some [] \<Rightarrow> JUndefined
           | Some (arg # rest) \<Rightarrow> arg_value arg))"

fun string_values :: "jsval list \<Rightarrow> string list" where
  "string_values [] = []"
| "string_values (JStr s # vs) = s # string_values vs"
| "string_values (v # vs) = string_values vs"

definition getCustomTags :: "schema \<Rightarrow> string \<Rightarrow> string list option" where
  "getCustomTags S modelName =
     (let tagsAttr = find (\<lambda>attr. attr_name attr = ''@@cache.tags'') (getModelAttributes S modelName);
          v = firstArgValue tagsAttr
      in if \<not> truthy v then None
         else (case v of JArr vs \<Rightarrow> Some (string_values vs) | _ \<Rightarrow> None))"

definition getCustomLife :: "schema \<Rightarrow> string \<Rightarrow> CacheLifeProfile option" where
  "getCustomLife S modelName =
     (let lifeAttr = find (\<lambda>attr. attr_name attr = ''@@cache.life'') (getModelAttributes S modelName);
          v = firstArgValue lifeAttr
      in if \<not> truthy v then None
         else (case v of
                 JStr s \<Rightarrow>
                   (if s \<in> set [''seconds'', ''minutes'', ''hours'', ''days'', ''weeks'', ''max'']
                    then Some s else None)
               | _ \<Rightarrow> None))"

section \<open>Tags, ids and relations of a query\<close>

definition READ_OPERATIONS :: "string list" where
  "READ_OPERATIONS =
     [''findMany'', ''findUnique'', ''findFirst'', ''findUniqueOrThrow'', ''findFirstOrThrow'',
      ''count'', ''aggregate'', ''groupBy'']"

definition isReadOperation :: "string \<Rightarrow> bool" where
  "isReadOperation operation = (operation \<in> set READ_OPERATIONS)"

text \<open>
  An optional \<open>id?: string\<close> is a \<open>string option\<close>; \<open>if (id)\<close> holds for a string that is
  not empty.
\<close>

definition id_truthy :: "string option \<Rightarrow> bool" where
  "id_truthy i = (case i of None \<Rightarrow> False | Some s \<Rightarrow> s \<noteq> [])"

definition generateCacheTags ::
  "string \<Rightarrow> string option \<Rightarrow> (string \<Rightarrow> string option \<Rightarrow> string list) option \<Rightarrow> string list" where
  "generateCacheTags modelName i tagGenerator =
     (case tagGenerator of
        Some g \<Rightarrow> g modelName i
      | None \<Rightarrow>
          (let modelLower = toLowerCase modelName;
               tags = [modelLower @ '':list'']
           in if id_truthy i then tags @ [modelLower @ '':'' @ the i] else tags))"

definition extractIdFromArgs :: "jsval \<Rightarrow> string option" where
  "extractIdFromArgs queryArgs =
     (if \<not> truthy queryArgs \<or> typeof queryArgs \<noteq> TObject then None
      else
        (let w = getProp queryArgs ''where'' in
         if truthy w \<and> typeof w = TObject then
           (case getProp w ''id'' of
              JStr s \<Rightarrow> Some s
            | JNum n \<Rightarrow> Some (Number_toString n)
            | _ \<Rightarrow> None)
         else None))"

definition is_relation :: "(string \<times> FieldDefinition) list \<Rightarrow> string \<Rightarrow> bool" where
  "is_relation fds fieldName =
     (case map_of fds fieldName of None \<Rightarrow> False | Some f \<Rightarrow> field_relation f \<noteq> None)"

definition type_of_field :: "(string \<times> FieldDefinition) list \<Rightarrow> string \<Rightarrow> string" where
  "type_of_field fds fieldName =
     (case map_of fds fieldName of None \<Rightarrow> [] | Some f \<Rightarrow> field_type f)"

definition extractIncludedRelations :: "schema \<Rightarrow> jsval \<Rightarrow> string \<Rightarrow> string list" where
  "extractIncludedRelations S queryArgs modelName =
     (if \<not> truthy queryArgs \<or> typeof queryArgs \<noteq> TObject then []
      else
        (let fds = getModelFields S modelName;
             inc = getProp queryArgs ''include'';
             fromInclude =
               (if truthy inc \<and> typeof inc = TObject
                then map (\<lambda>(fieldName, v). type_of_field fds fieldName)
                       (filter (\<lambda>(fieldName, v). truthy v \<and> is_relation fds fieldName)
                          (Object_entries inc))
                else []);
             sel = getProp queryArgs ''select'';
             fromSelect =
               (if truthy sel \<and> typeof sel = TObject
                then map (\<lambda>(fieldName, v). type_of_field fds fieldName)
                       (filter (\<lambda>(fieldName, v). truthy v \<and> typeof v = TObject \<and> is_relation fds fieldName)
                          (Object_entries sel))
                else [])
         in fromInclude @ fromSelect))"

section \<open>The plugin's options and model policy\<close>

record NextjsCachePluginOptions =
  defaultCacheLife :: "CacheLifeProfile option"
  excludeModels :: "string list option"
  debug :: "bool option"
  customTagGenerator :: "(string \<Rightarrow> string option \<Rightarrow> string list) option"

definition opt_defaultCacheLife :: "NextjsCachePluginOptions \<Rightarrow> CacheLifeProfile" where
  "opt_defaultCacheLife opts = (case defaultCacheLife opts of None \<Rightarrow> ''hours'' | Some l \<Rightarrow> l)"

definition opt_excludeModels :: "NextjsCachePluginOptions \<Rightarrow> string list" where
  "opt_excludeModels opts = (case excludeModels opts of None \<Rightarrow> [] | Some ms \<Rightarrow> ms)"

definition isExcludedModel :: "NextjsCachePluginOptions \<Rightarrow> schema \<Rightarrow> string \<Rightarrow> bool" where
  "isExcludedModel opts S model =
     (if model \<in> set (opt_excludeModels opts) then True
      else if hasExcludeAttribute S model then True
      else False)"

definition getTagsForModel ::
  "NextjsCachePluginOptions \<Rightarrow> schema \<Rightarrow> string \<Rightarrow> string option \<Rightarrow> string list" where
  "getTagsForModel opts S model i =
     (case customTagGenerator opts of
        Some g \<Rightarrow> g model i
      | None \<Rightarrow>
          (case getCustomTags S model of
             Some customTags \<Rightarrow>
               (if length customTags > 0
                then (if id_truthy i then customTags @ [toLowerCase model @ '':'' @ the i] else customTags)
                else generateCacheTags model i None)
           | None \<Rightarrow> generateCacheTags model i None))"

definition getLifeForModel :: "NextjsCachePluginOptions \<Rightarrow> schema \<Rightarrow> string \<Rightarrow> CacheLifeProfile" where
  "getLifeForModel opts S model =
     (case getCustomLife S model of Some l \<Rightarrow> l | None \<Rightarrow> opt_defaultCacheLife opts)"

text \<open>
  The tags of a read (\<open>onQuery\<close>, read branch): the model's tags, then the list tag of every
  relation the query includes or selects whose model is not excluded. The source pushes
  these onto the array that \<open>getTagsForModel\<close> returned; the model returns the longer list
  (a generator that hands out one and the same array on every call would see it grow,
  which is outside the model).
\<close>

definition readTags :: "NextjsCachePluginOptions \<Rightarrow> schema \<Rightarrow> string \<Rightarrow> jsval \<Rightarrow> string list" where
  "readTags opts S model queryArgs =
     (let i = extractIdFromArgs queryArgs;
          tags = getTagsForModel opts S model i;
          includedRelations = extractIncludedRelations S queryArgs model
      in tags @ map (\<lambda>relatedModel. toLowerCase relatedModel @ '':list'')
                  (filter (\<lambda>relatedModel. \<not> isExcludedModel opts S relatedModel) includedRelations))"

section \<open>Failures\<close>

text \<open>
  What a call can throw or reject with: the executor's or the row loader's own failure,
  the \<open>RangeError\<close> of \<open>toISOString\<close> on an invalid date, an error of the decimal
  constructor, and \<open>next/cache\<close> (or one of its functions) not being usable where the
  plugin runs.
\<close>

datatype error =
  ExecutorError string
  | RangeError
  | DecimalError string
  | CacheUnavailable

section \<open>Dates\<close>

text \<open>
  A valid \<open>Date\<close> is the instant given by its UTC calendar fields (year, month 1 to 12,
  day, hours, minutes, seconds, milliseconds); two dates are the same instant when the
  fields are equal. \<open>toISOString\<close> prints the fields as \<open>YYYY-MM-DDTHH:mm:ss.sssZ\<close>, with
  the expanded year \<open>+YYYYYY\<close> or \<open>-YYYYYY\<close> outside the years 0 to 9999, and throws a
  \<open>RangeError\<close> on an invalid date.
\<close>

definition is_digit :: "char \<Rightarrow> bool" where
  "is_digit c = (let n = (of_char c :: nat) in 48 \<le> n \<and> n \<le> 57)"

definition digit_value :: "char \<Rightarrow> nat" where
  "digit_value c = of_char c - 48"

definition parse_nat :: "string \<Rightarrow> nat" where
  "parse_nat s = foldl (\<lambda>acc c. 10 * acc + digit_value c) 0 s"

fun fixed_digits :: "nat \<Rightarrow> nat \<Rightarrow> string" where
  "fixed_digits 0 n = []"
| "fixed_digits (Suc w) n = fixed_digits w (n div 10) @ [digit_char (n mod 10)]"

definition leap_year :: "int \<Rightarrow> bool" where
  "leap_year y = (y mod 4 = 0 \<and> (y mod 100 \<noteq> 0 \<or> y mod 400 = 0))"

definition days_in_month :: "int \<Rightarrow> nat \<Rightarrow> nat" where
  "days_in_month y m =
     (if m = 2 then (if leap_year y then 29 else 28)
      else if m = 4 \<or> m = 6 \<or> m = 9 \<or> m = 11 then 30
      else 31)"

definition valid_fields :: "int \<Rightarrow> nat \<Rightarrow> nat \<Rightarrow> nat \<Rightarrow> nat \<Rightarrow> nat \<Rightarrow> nat \<Rightarrow> bool" where
  "valid_fields y mo d h mi s ms =
     (1 \<le> mo \<and> mo \<le> 12 \<and> 1 \<le> d \<and> d \<le> days_in_month y mo
      \<and> h < 24 \<and> mi < 60 \<and> s < 60 \<and> ms < 1000)"

fun valid_date :: "jsdate \<Rightarrow> bool" where
  "valid_date InvalidDate = False"
| "valid_date (UTCDate y mo d h mi s ms) = valid_fields y mo d h mi s ms"

definition year_string :: "int \<Rightarrow> string" where
  "year_string y =
     (if 0 \<le> y \<and> y \<le> 9999 then fixed_digits 4 (nat y)
      else (if y < 0 then ''-'' else ''+'') @ fixed_digits 6 (nat \<bar>y\<bar>))"

fun toISOString :: "jsdate \<Rightarrow> error + string" where
  "toISOString InvalidDate = Inl RangeError"
| "toISOString (UTCDate y mo d h mi s ms) =
     Inr (year_string y @ ''-'' @ fixed_digits 2 mo @ ''-'' @ fixed_digits 2 d
          @ ''T'' @ fixed_digits 2 h @ '':'' @ fixed_digits 2 mi @ '':'' @ fixed_digits 2 s
          @ ''.'' @ fixed_digits 3 ms @ ''Z'')"

text \<open>
  \<open>ISO_DATE_REGEX\<close> is \<open>/^\d{4}-\d{2}-\d{2}T\d{2}:\d{2}:\d{2}/\<close>: a pattern of digits and
  literal characters that the string must start with.
\<close>

datatype pat = D | L char

fun match_prefix :: "pat list \<Rightarrow> string \<Rightarrow> bool" where
  "match_prefix [] s = True"
| "match_prefix (p # ps) [] = False"
| "match_prefix (D # ps) (c # cs) = (is_digit c \<and> match_prefix ps cs)"
| "match_prefix (L x # ps) (c # cs) = (c = x \<and> match_prefix ps cs)"

definition ISO_DATE_REGEX :: "pat list" where
  "ISO_DATE_REGEX =
     [D, D, D, D, L (CHR ''-''), D, D, L (CHR ''-''), D, D, L (CHR ''T''),
      D, D, L (CHR '':''), D, D, L (CHR '':''), D, D]"

definition ISO_DATE_REGEX_test :: "string \<Rightarrow> bool" where
  "ISO_DATE_REGEX_test s = match_prefix ISO_DATE_REGEX s"

text \<open>
  \<open>new Date(s)\<close>. A string in the format \<open>toISOString\<close> writes, with calendar fields that
  exist, is that instant. Every other string is parsed in a way that depends on the engine
  and on the local time zone; that part is the parameter \<open>Date_parse_other\<close> of the
  run-time environment below.
\<close>

definition take_digits :: "nat \<Rightarrow> string \<Rightarrow> (nat \<times> string) option" where
  "take_digits w s =
     (if w \<le> length s \<and> list_all is_digit (take w s) then Some (parse_nat (take w s), drop w s)
      else None)"

definition expect :: "char \<Rightarrow> string \<Rightarrow> string option" where
  "expect c s = (case s of [] \<Rightarrow> None | x # xs \<Rightarrow> if x = c then Some xs else None)"

definition parse_year :: "string \<Rightarrow> (int \<times> string) option" where
  "parse_year s =
     (case s of
        [] \<Rightarrow> None
      | c # cs \<Rightarrow>
          if c = CHR ''+'' then
            (case take_digits 6 cs of None \<Rightarrow> None | Some (n, r) \<Rightarrow> Some (int n, r))
          else if c = CHR ''-'' then
            (case take_digits 6 cs of
               None \<Rightarrow> None
             | Some (n, r) \<Rightarrow> if n = 0 then None else Some (- int n, r))
          else
            (case take_digits 4 s of None \<Rightarrow> None | Some (n, r) \<Rightarrow> Some (int n, r)))"

definition Date_parse_iso :: "string \<Rightarrow> jsdate option" where
  "Date_parse_iso s =
     do {
       (y, s1) \<leftarrow> parse_year s;
       s2 \<leftarrow> expect (CHR ''-'') s1;
       (mo, s3) \<leftarrow> take_digits 2 s2;
       s4 \<leftarrow> expect (CHR ''-'') s3;
       (d, s5) \<leftarrow> take_digits 2 s4;
       s6 \<leftarrow> expect (CHR ''T'') s5;
       (h, s7) \<leftarrow> take_digits 2 s6;
       s8 \<leftarrow> expect (CHR '':'') s7;
       (mi, s9) \<leftarrow> take_digits 2 s8;
       s10 \<leftarrow> expect (CHR '':'') s9;
       (sec, s11) \<leftarrow> take_digits 2 s10;
       s12 \<leftarrow> expect (CHR ''.'') s11;
       (ms, s13) \<leftarrow> take_digits 3 s12;
       s14 \<leftarrow> expect (CHR ''Z'') s13;
       (if s14 = [] \<and> valid_fields y mo d h mi sec ms
        then Some (UTCDate y mo d h mi sec ms) else None)
     }"

section \<open>The run-time environment\<close>

text \<open>
  What the plugin finds where it runs, taken as parameters:
  \<^item> \<open>PrismaDecimal\<close>: the \<open>Decimal\<close> constructor of \<open>@prisma/client/runtime/library\<close>,
    \<open>None\<close> when \<open>require\<close> fails; the constructor may throw;
  \<^item> \<open>Date_parse_other\<close>: \<open>new Date(s)\<close> on the strings \<open>Date_parse_iso\<close> does not cover;
  \<^item> \<open>Date_toString\<close>: \<open>String(d)\<close> for a date (local time, engine-dependent);
  \<^item> \<open>unstable_cache_available\<close>, \<open>updateTag_available\<close>, \<open>revalidateTag_available\<close>:
    whether the function of \<open>next/cache\<close> can be imported and called in this context.
\<close>

record runtime =
  PrismaDecimal :: "(jsval \<Rightarrow> error + jsval) option"
  Date_parse_other :: "string \<Rightarrow> jsdate"
  Date_toString :: "jsdate \<Rightarrow> string"
  unstable_cache_available :: bool
  updateTag_available :: bool
  revalidateTag_available :: bool

definition Date_new :: "runtime \<Rightarrow> string \<Rightarrow> jsdate" where
  "Date_new rt s = (case Date_parse_iso s of Some d \<Rightarrow> d | None \<Rightarrow> Date_parse_other rt s)"

section \<open>The codec: \<open>transformDates\<close> and \<open>restoreDates\<close>\<close>

fun transformDates :: "jsval \<Rightarrow> error + jsval"
  and transformDates_list :: "jsval list \<Rightarrow> error + jsval list"
  and transformDates_entries :: "(string \<times> jsval) list \<Rightarrow> error + (string \<times> jsval) list"
where
  "transformDates JUndefined = Inr JUndefined"
| "transformDates JNull = Inr JNull"
| "transformDates (JDate d) = (case toISOString d of Inl e \<Rightarrow> Inl e | Inr s \<Rightarrow> Inr (JStr s))"
| "transformDates (JDecimal s ps) = Inr (JStr s)"
| "transformDates (JArr xs) =
     (case transformDates_list xs of Inl e \<Rightarrow> Inl e | Inr ys \<Rightarrow> Inr (JArr ys))"
| "transformDates (JObj kvs) =
     (case transformDates_entries kvs of Inl e \<Rightarrow> Inl e | Inr es \<Rightarrow> Inr (Object_fromEntries es))"
| "transformDates (JBool b) = Inr (JBool b)"
| "transformDates (JNum n) = Inr (JNum n)"
| "transformDates (JStr s) = Inr (JStr s)"
| "transformDates_list [] = Inr []"
| "transformDates_list (x # xs) =
     (case transformDates x of
        Inl e \<Rightarrow> Inl e
      | Inr y \<Rightarrow> (case transformDates_list xs of Inl e \<Rightarrow> Inl e | Inr ys \<Rightarrow> Inr (y # ys)))"
| "transformDates_entries [] = Inr []"
| "transformDates_entries ((k, v) # kvs) =
     (case transformDates v of
        Inl e \<Rightarrow> Inl e
      | Inr y \<Rightarrow> (case transformDates_entries kvs of Inl e \<Rightarrow> Inl e | Inr es \<Rightarrow> Inr ((k, y) # es)))"

text \<open>The characters of a value that is a string.\<close>

fun string_of :: "jsval \<Rightarrow> string" where
  "string_of (JStr s) = s"
| "string_of v = []"

definition is_nullish :: "jsval \<Rightarrow> bool" where
  "is_nullish v = (v = JNull \<or> v = JUndefined)"

fun restoreTypesInternal :: "schema \<Rightarrow> runtime \<Rightarrow> jsval \<Rightarrow> string \<Rightarrow> error + jsval"
  and restore_list :: "schema \<Rightarrow> runtime \<Rightarrow> jsval list \<Rightarrow> string \<Rightarrow> error + jsval list"
  and restore_entries ::
    "schema \<Rightarrow> runtime \<Rightarrow> (string \<times> jsval) list \<Rightarrow> string \<Rightarrow> error + (string \<times> jsval) list"
where
  "restoreTypesInternal S rt JUndefined modelName = Inr JUndefined"
| "restoreTypesInternal S rt JNull modelName = Inr JNull"
| "restoreTypesInternal S rt (JArr xs) modelName =
     (case restore_list S rt xs modelName of Inl e \<Rightarrow> Inl e | Inr ys \<Rightarrow> Inr (JArr ys))"
| "restoreTypesInternal S rt (JObj kvs) modelName =
     (case restore_entries S rt kvs modelName of
        Inl e \<Rightarrow> Inl e | Inr es \<Rightarrow> Inr (Object_fromEntries es))"
| "restoreTypesInternal S rt (JDecimal s ps) modelName =
     (case restore_entries S rt ps modelName of
        Inl e \<Rightarrow> Inl e | Inr es \<Rightarrow> Inr (Object_fromEntries es))"
| "restoreTypesInternal S rt (JDate d) modelName = Inr (Object_fromEntries [])"
| "restoreTypesInternal S rt (JBool b) modelName = Inr (JBool b)"
| "restoreTypesInternal S rt (JNum n) modelName = Inr (JNum n)"
| "restoreTypesInternal S rt (JStr s) modelName = Inr (JStr s)"
| "restore_list S rt [] modelName = Inr []"
| "restore_list S rt (x # xs) modelName =
     (case restoreTypesInternal S rt x modelName of
        Inl e \<Rightarrow> Inl e
      | Inr y \<Rightarrow>
          (case restore_list S rt xs modelName of Inl e \<Rightarrow> Inl e | Inr ys \<Rightarrow> Inr (y # ys)))"
| "restore_entries S rt [] modelName = Inr []"
| "restore_entries S rt ((key, v) # kvs) modelName =
     (case
        (if key \<in> getDateTimeFields S modelName \<and> typeof v = TString
            \<and> ISO_DATE_REGEX_test (string_of v)
         then Inr (JDate (Date_new rt (string_of v)))
         else if key \<in> getDecimalFields S modelName \<and> \<not> is_nullish v
                 \<and> (typeof v = TString \<or> typeof v = TNumber)
         then (case PrismaDecimal rt of Some ctor \<Rightarrow> ctor v | None \<Rightarrow> Inr v)
         else if is_relation (getModelFields S modelName) key \<and> \<not> is_nullish v
         then restoreTypesInternal S rt v (type_of_field (getModelFields S modelName) key)
         else Inr v)
      of
        Inl e \<Rightarrow> Inl e
      | Inr y \<Rightarrow>
          (case restore_entries S rt kvs modelName of
             Inl e \<Rightarrow> Inl e | Inr es \<Rightarrow> Inr ((key, y) # es)))"

definition restoreDates :: "schema \<Rightarrow> runtime \<Rightarrow> jsval \<Rightarrow> string \<Rightarrow> error + jsval" where
  "restoreDates S rt obj modelName = restoreTypesInternal S rt obj modelName"

section \<open>Cache keys\<close>

text \<open>
  \<open>JSON.stringify\<close> on the values of the model. A property whose value is undefined is
  left out of an object and printed as \<open>null\<close> in an array; a date prints through
  \<open>toJSON\<close> (its ISO string, or \<open>null\<close> when it is invalid) and a decimal through its
  \<open>toJSON\<close>, which is its \<open>toString\<close>.
\<close>

definition hex_digit :: "nat \<Rightarrow> char" where
  "hex_digit n = (if n < 10 then char_of (48 + n) else char_of (87 + n))"

definition json_escape_char :: "char \<Rightarrow> string" where
  "json_escape_char c =
     (let n = (of_char c :: nat) in
      if c = CHR 0x22 then [CHR 0x5C, CHR 0x22]
      else if c = CHR 0x5C then [CHR 0x5C, CHR 0x5C]
      else if n = 8 then [CHR 0x5C, CHR ''b'']
      else if n = 9 then [CHR 0x5C, CHR ''t'']
      else if n = 10 then [CHR 0x5C, CHR ''n'']
      else if n = 12 then [CHR 0x5C, CHR ''f'']
      else if n = 13 then [CHR 0x5C, CHR ''r'']
      else if n < 32 then [CHR 0x5C, CHR ''u'', CHR ''0'', CHR ''0'', hex_digit (n div 16), hex_digit (n mod 16)]
      else [c])"

definition JSON_quote :: "string \<Rightarrow> string" where
  "JSON_quote s = [CHR 0x22] @ concat (map json_escape_char s) @ [CHR 0x22]"

fun join_comma :: "string list \<Rightarrow> string" where
  "join_comma [] = []"
| "join_comma [x] = x"
| "join_comma (x # y # ys) = x @ '','' @ join_comma (y # ys)"

fun JSON_serialize :: "jsval \<Rightarrow> string option"
  and JSON_elements :: "jsval list \<Rightarrow> string list"
  and JSON_members :: "(string \<times> jsval) list \<Rightarrow> string list"
where
  "JSON_serialize JUndefined = None"
| "JSON_serialize JNull = Some ''null''"
| "JSON_serialize (JBool b) = Some (if b then ''true'' else ''false'')"
| "JSON_serialize (JNum n) = Some (Number_toString n)"
| "JSON_serialize (JStr s) = Some (JSON_quote s)"
| "JSON_serialize (JDate d) =
     (case toISOString d of Inl e \<Rightarrow> Some ''null'' | Inr s \<Rightarrow> Some (JSON_quote s))"
| "JSON_serialize (JDecimal s ps) = Some (JSON_quote s)"
| "JSON_serialize (JArr xs) = Some (''['' @ join_comma (JSON_elements xs) @ '']'')"
| "JSON_serialize (JObj kvs) = Some (''{'' @ join_comma (JSON_members kvs) @ ''}'')"
| "JSON_elements [] = []"
| "JSON_elements (x # xs) =
     (case JSON_serialize x of None \<Rightarrow> ''null'' | Some s \<Rightarrow> s) # JSON_elements xs"
| "JSON_members [] = []"
| "JSON_members ((k, v) # kvs) =
     (case JSON_serialize v of
        None \<Rightarrow> JSON_members kvs
      | Some s \<Rightarrow> (JSON_quote k @ '':'' @ s) # JSON_members kvs)"

text \<open>
  \<open>JSON.stringify\<close> is typed as returning a string; \<open>generateCacheKey\<close> calls it on
  objects only, where it does (lemma \<open>JSON_serialize_object\<close> below).
\<close>

definition JSON_stringify :: "jsval \<Rightarrow> string" where
  "JSON_stringify v = (case JSON_serialize v of Some s \<Rightarrow> s | None \<Rightarrow> ''undefined'')"

definition generateCacheKey :: "string \<Rightarrow> string \<Rightarrow> jsval \<Rightarrow> string option \<Rightarrow> string list" where
  "generateCacheKey model operation queryArgs userId =
     (let userPrefix = (if id_truthy userId then ''user:'' @ the userId @ '':'' else '''');
          baseKey = userPrefix @ toLowerCase model @ '':'' @ operation
      in if \<not> truthy queryArgs \<or> typeof queryArgs \<noteq> TObject then [baseKey]
         else (let argsStr = JSON_stringify queryArgs in [baseKey, argsStr]))"

section \<open>The world the hooks run in\<close>

text \<open>
  Modelled from the spec: the external cache store, \<open>unstable_cache\<close> of \<open>next/cache\<close>
  (section 6, \<open>getOrCompute(key, compute, options)\<close>), is not part of the repository. The
  store maps a key sequence to the value written under it, with its tags and its
  revalidation time; a read of a key that is there returns the value without running the
  computation, a read of a key that is not there runs it and stores the value only when
  it succeeds. Expiry after the revalidation time is not modelled.

  The world also holds the state of the database behind the executor (of any type
  \<open>'db\<close>) and the list of events, latest last, so that the order and number of calls can
  be stated.
\<close>

record cache_entry =
  entry_value :: jsval
  entry_tags :: "string list"
  entry_revalidate :: nat

datatype event =
  Proceed jsval
  | CacheHit "string list"
  | CacheWrite "string list" "string list" nat
  | LoadEntities
  | UpdateTag string
  | RevalidateTag string string
  | InvalidateFailed string

record 'db world =
  db :: 'db
  cache :: "(string list \<times> cache_entry) list"
  events :: "event list"

text \<open>\<open>proceed(queryArgs)\<close>: the executor runs on the database and resolves or rejects.\<close>

type_synonym 'db executor = "jsval \<Rightarrow> 'db \<Rightarrow> (error + jsval) \<times> 'db"

record 'db ctx =
  ctx_model :: string
  ctx_operation :: string
  ctx_args :: jsval
  ctx_proceed :: "'db executor"
  ctx_auth_id :: "string option"

definition call_proceed :: "'db ctx \<Rightarrow> 'db world \<Rightarrow> (error + jsval) \<times> 'db world" where
  "call_proceed c w =
     (let (r, d) = ctx_proceed c (ctx_args c) (db w)
      in (r, w\<lparr>db := d, events := events w @ [Proceed (ctx_args c)]\<rparr>))"

section \<open>\<open>onQuery\<close>\<close>

text \<open>
  The callback given to \<open>unstable_cache\<close>: the executor, then \<open>transformDates\<close>.
\<close>

definition cache_miss_callback :: "'db ctx \<Rightarrow> 'db world \<Rightarrow> (error + jsval) \<times> 'db world" where
  "cache_miss_callback c w =
     (case call_proceed c w of
        (Inl e, w1) \<Rightarrow> (Inl e, w1)
      | (Inr result, w1) \<Rightarrow> (transformDates result, w1))"

text \<open>\<open>unstable_cache(callback, cacheKey, {revalidate, tags})()\<close> on the store.\<close>

definition cachedQuery ::
  "runtime \<Rightarrow> ('db world \<Rightarrow> (error + jsval) \<times> 'db world) \<Rightarrow> string list \<Rightarrow> nat \<Rightarrow> string list
     \<Rightarrow> 'db world \<Rightarrow> (error + jsval) \<times> 'db world" where
  "cachedQuery rt callback cacheKey revalidateSeconds tags w =
     (if \<not> unstable_cache_available rt then (Inl CacheUnavailable, w)
      else
        (case map_of (cache w) cacheKey of
           Some entry \<Rightarrow> (Inr (entry_value entry), w\<lparr>events := events w @ [CacheHit cacheKey]\<rparr>)
         | None \<Rightarrow>
             (case callback w of
                (Inl e, w1) \<Rightarrow> (Inl e, w1)
              | (Inr v, w1) \<Rightarrow>
                  (Inr v,
                   w1\<lparr>cache := cache w1 @ [(cacheKey,
                          \<lparr>entry_value = v, entry_tags = tags, entry_revalidate = revalidateSeconds\<rparr>)],
                      events := events w1 @ [CacheWrite cacheKey tags revalidateSeconds]\<rparr>))))"

text \<open>The \<open>try\<close> block of the read branch.\<close>

definition read_try ::
  "schema \<Rightarrow> runtime \<Rightarrow> 'db ctx \<Rightarrow> string list \<Rightarrow> nat \<Rightarrow> string list
     \<Rightarrow> 'db world \<Rightarrow> (error + jsval) \<times> 'db world" where
  "read_try S rt c cacheKey revalidateSeconds tags w =
     (case cachedQuery rt (cache_miss_callback c) cacheKey revalidateSeconds tags w of
        (Inl e, w1) \<Rightarrow> (Inl e, w1)
      | (Inr cachedResult, w1) \<Rightarrow> (restoreDates S rt cachedResult (ctx_model c), w1))"

text \<open>The \<open>catch\<close> block of the read branch: whatever was thrown, the executor is called.\<close>

definition read_catch ::
  "schema \<Rightarrow> runtime \<Rightarrow> 'db ctx \<Rightarrow> 'db world \<Rightarrow> (error + jsval) \<times> 'db world" where
  "read_catch S rt c w =
     (case call_proceed c w of
        (Inl e, w1) \<Rightarrow> (Inl e, w1)
      | (Inr result, w1) \<Rightarrow>
          (case transformDates result of
             Inl e \<Rightarrow> (Inl e, w1)
           | Inr transformed \<Rightarrow> (restoreDates S rt transformed (ctx_model c), w1)))"

definition onQuery ::
  "NextjsCachePluginOptions \<Rightarrow> schema \<Rightarrow> runtime \<Rightarrow> 'db ctx \<Rightarrow> 'db world
     \<Rightarrow> (error + jsval) \<times> 'db world" where
  "onQuery opts S rt c w =
     (if isExcludedModel opts S (ctx_model c) then call_proceed c w
      else if isReadOperation (ctx_operation c) then
        (let tags = readTags opts S (ctx_model c) (ctx_args c);
             life = getLifeForModel opts S (ctx_model c);
             revalidateSeconds = getCacheRevalidateSeconds life;
             cacheKey = generateCacheKey (ctx_model c) (ctx_operation c) (ctx_args c) (ctx_auth_id c)
         in (case read_try S rt c cacheKey revalidateSeconds tags w of
               (Inr v, w1) \<Rightarrow> (Inr v, w1)
             | (Inl e, w1) \<Rightarrow> read_catch S rt c w1))
      else call_proceed c w)"

section \<open>Invalidation after a mutation\<close>

text \<open>
  Modelled from the spec: the invalidation primitives \<open>updateTag\<close> and \<open>revalidateTag\<close>
  of \<open>next/cache\<close> (section 6) are not part of the repository. A primitive that is
  available drops every entry of the store that carries the tag; one that is not
  available throws.
\<close>

definition drop_tag :: "string \<Rightarrow> (string list \<times> cache_entry) list \<Rightarrow> (string list \<times> cache_entry) list" where
  "drop_tag tag entries = filter (\<lambda>(k, e). tag \<notin> set (entry_tags e)) entries"

definition invalidateTag :: "runtime \<Rightarrow> string \<Rightarrow> 'db world \<Rightarrow> 'db world" where
  "invalidateTag rt tag w =
     (if updateTag_available rt
      then w\<lparr>cache := drop_tag tag (cache w), events := events w @ [UpdateTag tag]\<rparr>
      else if revalidateTag_available rt
      then w\<lparr>cache := drop_tag tag (cache w), events := events w @ [RevalidateTag tag ''max'']\<rparr>
      else w\<lparr>events := events w @ [InvalidateFailed tag]\<rparr>)"

text \<open>\<open>String(v)\<close>, as a template literal converts the value it interpolates.\<close>

fun js_toString :: "runtime \<Rightarrow> jsval \<Rightarrow> string"
  and js_join :: "runtime \<Rightarrow> jsval list \<Rightarrow> string"
where
  "js_toString rt JUndefined = ''undefined''"
| "js_toString rt JNull = ''null''"
| "js_toString rt (JBool b) = (if b then ''true'' else ''false'')"
| "js_toString rt (JNum n) = Number_toString n"
| "js_toString rt (JStr s) = s"
| "js_toString rt (JDate d) = Date_toString rt d"
| "js_toString rt (JDecimal s ps) = s"
| "js_toString rt (JArr xs) = js_join rt xs"
| "js_toString rt (JObj kvs) = ''[object Object]''"
| "js_join rt [] = []"
| "js_join rt [x] = (if x = JNull \<or> x = JUndefined then [] else js_toString rt x)"
| "js_join rt (x # y # ys) =
     (if x = JNull \<or> x = JUndefined then [] else js_toString rt x) @ '','' @ js_join rt (y # ys)"

text \<open>The loader of the rows after the mutation reads the database and resolves or rejects.\<close>

type_synonym 'db loader = "'db \<Rightarrow> (error + jsval) \<times> 'db"

definition call_loader :: "'db loader \<Rightarrow> 'db world \<Rightarrow> (error + jsval) \<times> 'db world" where
  "call_loader loadEntities w =
     (let (r, d) = loadEntities (db w)
      in (r, w\<lparr>db := d, events := events w @ [LoadEntities]\<rparr>))"

text \<open>The loop over the loaded rows.\<close>

fun invalidate_entities :: "runtime \<Rightarrow> string \<Rightarrow> jsval list \<Rightarrow> 'db world \<Rightarrow> 'db world" where
  "invalidate_entities rt model [] w = w"
| "invalidate_entities rt model (entity # rest) w =
     (if truthy entity \<and> typeof entity = TObject \<and> hasProp entity ''id''
      then invalidate_entities rt model rest
             (invalidateTag rt (toLowerCase model @ '':'' @ js_toString rt (getProp entity ''id'')) w)
      else invalidate_entities rt model rest w)"

definition invalidateCacheForModel :: "runtime \<Rightarrow> string \<Rightarrow> 'db loader \<Rightarrow> 'db world \<Rightarrow> 'db world" where
  "invalidateCacheForModel rt model loadEntities w =
     (let listTag = toLowerCase model @ '':list'';
          w1 = invalidateTag rt listTag w
      in (case call_loader loadEntities w1 of
            (Inl e, w2) \<Rightarrow> w2
          | (Inr entities, w2) \<Rightarrow>
              (case entities of
                 JArr rows \<Rightarrow> invalidate_entities rt model rows w2
               | _ \<Rightarrow> w2)))"

definition invalidateRelatedModelCache :: "runtime \<Rightarrow> string \<Rightarrow> 'db world \<Rightarrow> 'db world" where
  "invalidateRelatedModelCache rt model w = invalidateTag rt (toLowerCase model @ '':list'') w"

text \<open>The loop over the related models.\<close>

fun invalidate_related ::
  "NextjsCachePluginOptions \<Rightarrow> schema \<Rightarrow> runtime \<Rightarrow> string list \<Rightarrow> 'db world \<Rightarrow> 'db world" where
  "invalidate_related opts S rt [] w = w"
| "invalidate_related opts S rt (relatedModel # rest) w =
     (if \<not> isExcludedModel opts S relatedModel
      then invalidate_related opts S rt rest (invalidateRelatedModelCache rt relatedModel w)
      else invalidate_related opts S rt rest w)"

definition afterEntityMutation ::
  "NextjsCachePluginOptions \<Rightarrow> schema \<Rightarrow> runtime \<Rightarrow> string \<Rightarrow> 'db loader \<Rightarrow> 'db world \<Rightarrow> 'db world" where
  "afterEntityMutation opts S rt model loadAfterMutationEntities w =
     (let w1 = invalidateCacheForModel rt model loadAfterMutationEntities w;
          relatedModels = getRelatedModels S model
      in invalidate_related opts S rt relatedModels w1)"

text \<open>What \<open>invalidateTag\<close> adds to the list of events for a tag.\<close>

definition invalidation_event :: "runtime \<Rightarrow> string \<Rightarrow> event" where
  "invalidation_event rt tag =
     (if updateTag_available rt then UpdateTag tag
      else if revalidateTag_available rt then RevalidateTag tag ''max''
      else InvalidateFailed tag)"

text \<open>Whether a loaded row gets an entity tag, and the tag it gets.\<close>

definition carries_id :: "jsval \<Rightarrow> bool" where
  "carries_id entity = (truthy entity \<and> typeof entity = TObject \<and> hasProp entity ''id'')"

definition entity_tag :: "runtime \<Rightarrow> string \<Rightarrow> jsval \<Rightarrow> string" where
  "entity_tag rt model entity = toLowerCase model @ '':'' @ js_toString rt (getProp entity ''id'')"

text \<open>The rows a loader's result gives to the loop: those of an array, none otherwise.\<close>

fun loaded_rows :: "error + jsval \<Rightarrow> jsval list" where
  "loaded_rows (Inr (JArr rows)) = rows"
| "loaded_rows r = []"

section \<open>Values that a model describes\<close>

text \<open>
  The conditions of the round-trip law, written after the spec's words. A date is
  \<^emph>\<open>printable\<close> when it is valid and its UTC year has four digits. A value is \<^emph>\<open>plain\<close>
  when no date and no decimal occurs in it. The keys of every object are distinct
  (\<open>distinct_keys\<close>, the invariant of \<open>JObj\<close>).
\<close>

fun printable_date :: "jsdate \<Rightarrow> bool" where
  "printable_date InvalidDate = False"
| "printable_date (UTCDate y mo d h mi s ms) = (valid_fields y mo d h mi s ms \<and> 0 \<le> y \<and> y \<le> 9999)"

fun plain :: "jsval \<Rightarrow> bool"
  and plain_list :: "jsval list \<Rightarrow> bool"
  and plain_entries :: "(string \<times> jsval) list \<Rightarrow> bool"
where
  "plain (JDate d) = False"
| "plain (JDecimal s ps) = False"
| "plain (JArr xs) = plain_list xs"
| "plain (JObj kvs) = plain_entries kvs"
| "plain JUndefined = True"
| "plain JNull = True"
| "plain (JBool b) = True"
| "plain (JNum n) = True"
| "plain (JStr s) = True"
| "plain_list [] = True"
| "plain_list (x # xs) = (plain x \<and> plain_list xs)"
| "plain_entries [] = True"
| "plain_entries ((k, v) # kvs) = (plain v \<and> plain_entries kvs)"

fun distinct_keys :: "jsval \<Rightarrow> bool"
  and distinct_keys_list :: "jsval list \<Rightarrow> bool"
  and distinct_keys_entries :: "(string \<times> jsval) list \<Rightarrow> bool"
where
  "distinct_keys (JArr xs) = distinct_keys_list xs"
| "distinct_keys (JObj kvs) = (distinct (map fst kvs) \<and> distinct_keys_entries kvs)"
| "distinct_keys (JDecimal s ps) = True"
| "distinct_keys (JDate d) = True"
| "distinct_keys JUndefined = True"
| "distinct_keys JNull = True"
| "distinct_keys (JBool b) = True"
| "distinct_keys (JNum n) = True"
| "distinct_keys (JStr s) = True"
| "distinct_keys_list [] = True"
| "distinct_keys_list (x # xs) = (distinct_keys x \<and> distinct_keys_list xs)"
| "distinct_keys_entries [] = True"
| "distinct_keys_entries ((k, v) # kvs) = (distinct_keys v \<and> distinct_keys_entries kvs)"

text \<open>
  A decimal under a field of type \<open>Decimal\<close> comes back when the decimal constructor is
  there and builds, from the decimal's string, that decimal.
\<close>

definition decimal_restorable :: "runtime \<Rightarrow> jsval \<Rightarrow> bool" where
  "decimal_restorable rt v =
     (case PrismaDecimal rt of
        None \<Rightarrow> False
      | Some ctor \<Rightarrow> (case v of JDecimal s ps \<Rightarrow> ctor (JStr s) = Inr v | _ \<Rightarrow> False))"

fun is_printable_date :: "jsval \<Rightarrow> bool" where
  "is_printable_date (JDate d) = printable_date d"
| "is_printable_date v = False"

text \<open>
  The field descriptors of the model \<open>m\<close> describe the value \<open>v\<close>: \<open>v\<close> is a sequence of
  described values, or a mapping in which
  \<^item> a field of type \<open>DateTime\<close> holds a printable date (or null, or nothing),
  \<^item> a field of type \<open>Decimal\<close> holds a restorable decimal (or null, or nothing),
  \<^item> a relation field holds a value that the related model describes,
  \<^item> every other key holds a plain value,

  or a value that is neither a mapping nor a sequence nor a date nor a decimal. So every date
  of \<open>v\<close> sits under a \<open>DateTime\<close> field of the model that governs the mapping it is in.
\<close>

fun described :: "schema \<Rightarrow> runtime \<Rightarrow> string \<Rightarrow> jsval \<Rightarrow> bool"
  and described_list :: "schema \<Rightarrow> runtime \<Rightarrow> string \<Rightarrow> jsval list \<Rightarrow> bool"
  and described_entries :: "schema \<Rightarrow> runtime \<Rightarrow> string \<Rightarrow> (string \<times> jsval) list \<Rightarrow> bool"
where
  "described S rt m (JDate d) = False"
| "described S rt m (JDecimal s ps) = False"
| "described S rt m (JArr xs) = described_list S rt m xs"
| "described S rt m (JObj kvs) = described_entries S rt m kvs"
| "described S rt m JUndefined = True"
| "described S rt m JNull = True"
| "described S rt m (JBool b) = True"
| "described S rt m (JNum n) = True"
| "described S rt m (JStr s) = True"
| "described_list S rt m [] = True"
| "described_list S rt m (x # xs) = (described S rt m x \<and> described_list S rt m xs)"
| "described_entries S rt m [] = True"
| "described_entries S rt m ((k, v) # kvs) =
     ((if k \<in> getDateTimeFields S m then is_nullish v \<or> is_printable_date v
       else if k \<in> getDecimalFields S m then is_nullish v \<or> decimal_restorable rt v
       else if is_relation (getModelFields S m) k
       then described S rt (type_of_field (getModelFields S m) k) v
       else plain v)
      \<and> described_entries S rt m kvs)"

section \<open>A schema to run the definitions on\<close>

text \<open>
  The schema of the repository's tests (users, posts, comments, categories, sessions), with
  a \<open>createdAt\<close> field of type \<open>DateTime\<close> on users and posts and a model that declares
  an empty \<open>@@cache.tags\<close> list.
\<close>

definition scalar_field :: "string \<Rightarrow> string \<Rightarrow> string \<times> FieldDefinition" where
  "scalar_field n t = (n, \<lparr>field_name = n, field_type = t, field_relation = None\<rparr>)"

definition relation_field ::
  "string \<Rightarrow> string \<Rightarrow> string \<Rightarrow> string list \<Rightarrow> string list \<Rightarrow> string \<times> FieldDefinition" where
  "relation_field n t opp fs refs =
     (n, \<lparr>field_name = n, field_type = t,
          field_relation = Some \<lparr>rel_opposite = Some opp, rel_fields = Some fs, rel_references = Some refs\<rparr>\<rparr>)"

definition model_def ::
  "string \<Rightarrow> ModelAttribute list \<Rightarrow> (string \<times> FieldDefinition) list \<Rightarrow> string \<times> ModelDefinition" where
  "model_def n as fs = (n, \<lparr>model_name = n, model_fields = Some fs, model_attributes = Some as\<rparr>)"

definition test_schema :: schema where
  "test_schema =
     [model_def ''Category'' []
        [scalar_field ''id'' ''String'', scalar_field ''name'' ''String'',
         relation_field ''posts'' ''Post'' ''category'' [] []],
      model_def ''Comment'' []
        [relation_field ''author'' ''User'' ''comments'' [''authorId''] [''id''],
         scalar_field ''authorId'' ''String'', scalar_field ''content'' ''String'',
         scalar_field ''id'' ''String'',
         relation_field ''post'' ''Post'' ''comments'' [''postId''] [''id''],
         scalar_field ''postId'' ''String''],
      model_def ''Post'' []
        [relation_field ''author'' ''User'' ''posts'' [''authorId''] [''id''],
         scalar_field ''authorId'' ''String'',
         relation_field ''category'' ''Category'' ''posts'' [''categoryId''] [''id''],
         scalar_field ''categoryId'' ''String'',
         relation_field ''comments'' ''Comment'' ''post'' [] [],
         scalar_field ''id'' ''String'', scalar_field ''title'' ''String'',
         scalar_field ''createdAt'' ''DateTime''],
      model_def ''Session'' [\<lparr>attr_name = ''@@cache.exclude'', attr_args = Some []\<rparr>]
        [scalar_field ''id'' ''String''],
      model_def ''User'' []
        [relation_field ''comments'' ''Comment'' ''author'' [] [],
         scalar_field ''email'' ''String'', scalar_field ''id'' ''String'',
         scalar_field ''name'' ''String'',
         relation_field ''posts'' ''Post'' ''author'' [] [],
         scalar_field ''createdAt'' ''DateTime''],
      model_def ''Tagged''
        [\<lparr>attr_name = ''@@cache.tags'',
          attr_args = Some [\<lparr>arg_name = ''tags'', arg_value = JArr []\<rparr>]\<rparr>]
        [scalar_field ''id'' ''String'']]"

text \<open>\<open>createNextjsCachePlugin()\<close> with no option set.\<close>

definition default_options :: NextjsCachePluginOptions where
  "default_options =
     \<lparr>defaultCacheLife = None, excludeModels = None, debug = None, customTagGenerator = None\<rparr>"

text \<open>
  A run-time environment in which \<open>unstable_cache\<close> and \<open>revalidateTag\<close> can be called,
  \<open>updateTag\<close> cannot (a route handler), and no decimal library is installed.
\<close>

definition route_runtime :: runtime where
  "route_runtime =
     \<lparr>PrismaDecimal = None, Date_parse_other = (\<lambda>s. InvalidDate),
      Date_toString = (\<lambda>d. ''Invalid Date''),
      unstable_cache_available = True, updateTag_available = False,
      revalidateTag_available = True\<rparr>"

text \<open>
  The database state of the examples is the number of calls it has answered; the store
  is empty at the start.
\<close>

definition empty_world :: "nat world" where
  "empty_world = \<lparr>db = 0, cache = [], events = []\<rparr>"

text \<open>An executor whose first call rejects (a connection that is reset) and whose later calls resolve.\<close>

definition flaky_executor :: "nat executor" where
  "flaky_executor queryArgs n =
     (if n = 0 then Inl (ExecutorError ''connection reset'') else Inr (JArr []), Suc n)"

definition read_users :: "nat ctx" where
  "read_users =
     \<lparr>ctx_model = ''User'', ctx_operation = ''findMany'', ctx_args = JObj [],
      ctx_proceed = flaky_executor, ctx_auth_id = None\<rparr>"

text \<open>An executor that resolves with one post and its author.\<close>

definition posts_executor :: "nat executor" where
  "posts_executor queryArgs n =
     (Inr (JArr [JObj [(''id'', JStr ''1''), (''title'', JStr ''Post 1''),
                       (''author'', JObj [(''id'', JStr ''u1''), (''name'', JStr ''User'')])]]),
      Suc n)"

definition read_posts_with_author :: "nat ctx" where
  "read_posts_with_author =
     \<lparr>ctx_model = ''Post'', ctx_operation = ''findMany'',
      ctx_args = JObj [(''include'', JObj [(''author'', JBool True)])],
      ctx_proceed = posts_executor, ctx_auth_id = None\<rparr>"

text \<open>The custom tag generator of the repository's documentation, and options that set it.\<close>

definition versioned_tags :: "string \<Rightarrow> string option \<Rightarrow> string list" where
  "versioned_tags model i =
     (let tags = [''v1:'' @ toLowerCase model @ '':list'']
      in if id_truthy i then tags @ [''v1:'' @ toLowerCase model @ '':'' @ the i] else tags)"

definition generator_options :: NextjsCachePluginOptions where
  "generator_options =
     \<lparr>defaultCacheLife = None, excludeModels = None, debug = None,
      customTagGenerator = Some versioned_tags\<rparr>"

text \<open>The loader of the rows after a mutation of one user.\<close>

definition user_loader :: "nat loader" where
  "user_loader n =
     (Inr (JArr [JObj [(''id'', JStr ''user-1''), (''name'', JStr ''Updated User'')]]), n)"

text \<open>
  A result of \<open>findMany\<close> on posts with their authors, with its dates, and what
  \<open>transformDates\<close> makes of it.
\<close>

definition post_rows :: jsval where
  "post_rows =
     JArr [JObj [(''id'', JStr ''1''), (''title'', JStr ''Post 1''),
                 (''createdAt'', JDate (UTCDate 2024 1 15 10 30 0 0)),
                 (''author'',
                  JObj [(''id'', JStr ''u1''), (''name'', JNull),
                        (''createdAt'', JDate (UTCDate 2023 12 31 23 59 59 999))])]]"

definition frozen_post_rows :: jsval where
  "frozen_post_rows =
     JArr [JObj [(''id'', JStr ''1''), (''title'', JStr ''Post 1''),
                 (''createdAt'', JStr ''2024-01-15T10:30:00.000Z''),
                 (''author'',
                  JObj [(''id'', JStr ''u1''), (''name'', JNull),
                        (''createdAt'', JStr ''2023-12-31T23:59:59.999Z'')])]]"

text \<open>A user created on the first day of the year 10000, and what \<open>transformDates\<close> makes of it.\<close>

definition late_user :: jsval where
  "late_user = JObj [(''id'', JStr ''u2''), (''createdAt'', JDate (UTCDate 10000 1 1 0 0 0 0))]"

definition frozen_late_user :: jsval where
  "frozen_late_user = JObj [(''id'', JStr ''u2''), (''createdAt'', JStr ''+010000-01-01T00:00:00.000Z'')]"

section \<open>Properties\<close>

subsection \<open>Life profiles\<close>

lemma seconds_unknown:
  "p \<noteq> ''seconds'' \<Longrightarrow> p \<noteq> ''minutes'' \<Longrightarrow> p \<noteq> ''hours'' \<Longrightarrow> p \<noteq> ''days''
   \<Longrightarrow> p \<noteq> ''weeks'' \<Longrightarrow> p \<noteq> ''max'' \<Longrightarrow> getCacheRevalidateSeconds p = 3600"
  unfolding getCacheRevalidateSeconds_def by presburger

lemma seconds_known:
  "getCacheRevalidateSeconds ''seconds'' = 1"
  "getCacheRevalidateSeconds ''minutes'' = 60"
  "getCacheRevalidateSeconds ''hours'' = 3600"
  "getCacheRevalidateSeconds ''days'' = 86400"
  "getCacheRevalidateSeconds ''weeks'' = 604800"
  "getCacheRevalidateSeconds ''max'' = 31536000"
  by (simp_all add: getCacheRevalidateSeconds_def)

text \<open>
  C4. \<open>getCacheRevalidateSeconds\<close> maps seconds to 1, minutes to 60, hours to 3600, days to
  86400, weeks to 604800 and max to 31536000, and every other profile string to 3600.
\<close>

theorem getCacheRevalidateSeconds_table:
  "getCacheRevalidateSeconds ''seconds'' = 1
   \<and> getCacheRevalidateSeconds ''minutes'' = 60
   \<and> getCacheRevalidateSeconds ''hours'' = 3600
   \<and> getCacheRevalidateSeconds ''days'' = 86400
   \<and> getCacheRevalidateSeconds ''weeks'' = 604800
   \<and> getCacheRevalidateSeconds ''max'' = 31536000
   \<and> (\<forall>p. p \<noteq> ''seconds'' \<and> p \<noteq> ''minutes'' \<and> p \<noteq> ''hours'' \<and> p \<noteq> ''days''
            \<and> p \<noteq> ''weeks'' \<and> p \<noteq> ''max'' \<longrightarrow> getCacheRevalidateSeconds p = 3600)"
  using seconds_known seconds_unknown by blast

theorem getCacheRevalidateSeconds_table_witness:
  "getCacheRevalidateSeconds ''forever'' = 3600"
proof -
  note t = getCacheRevalidateSeconds_table
  have "''forever'' \<noteq> ''seconds'' \<and> ''forever'' \<noteq> ''minutes'' \<and> ''forever'' \<noteq> ''hours''
        \<and> ''forever'' \<noteq> ''days'' \<and> ''forever'' \<noteq> ''weeks'' \<and> ''forever'' \<noteq> ''max''
        \<longrightarrow> getCacheRevalidateSeconds ''forever'' = 3600"
    by (rule t [THEN conjunct2, THEN conjunct2, THEN conjunct2, THEN conjunct2, THEN conjunct2,
          THEN conjunct2, THEN spec])
  then show ?thesis by simp
qed

subsection \<open>Default tags\<close>

lemma generateCacheTags_default:
  "generateCacheTags m i None =
     (if id_truthy i then [toLowerCase m @ '':list'', toLowerCase m @ '':'' @ the i]
      else [toLowerCase m @ '':list''])"
  by (simp add: generateCacheTags_def Let_def)

lemma toLowerCase_User: "toLowerCase ''User'' = ''user''"
  by code_simp

lemma toLowerCase_Post: "toLowerCase ''Post'' = ''post''"
  by code_simp

lemma toLowerCase_Comment: "toLowerCase ''Comment'' = ''comment''"
  by code_simp

lemma toLowerCase_Category: "toLowerCase ''Category'' = ''category''"
  by code_simp

lemma no_custom_tags_User: "getCustomTags test_schema ''User'' = None"
  by code_simp

lemma no_custom_tags_Post: "getCustomTags test_schema ''Post'' = None"
  by code_simp

lemma no_generator_default: "customTagGenerator default_options = None"
  by (simp add: default_options_def)

text \<open>
  C3, as the code has it. With no custom generator and no custom tags, the tags of a model
  \<open>m\<close> are \<open>[lower(m) + ":list", lower(m) + ":" + i]\<close> for an id \<open>i\<close> that is not the
  empty string, and \<open>[lower(m) + ":list"]\<close> when no id is given. (The claim says so for
  every id; the empty string is the exception, see the counterexample.)
\<close>

theorem default_tags:
  assumes "customTagGenerator opts = None" and "getCustomTags S m = None"
  shows "(i \<noteq> [] \<longrightarrow>
            generateCacheTags m (Some i) None = [toLowerCase m @ '':list'', toLowerCase m @ '':'' @ i]
          \<and> getTagsForModel opts S m (Some i) = [toLowerCase m @ '':list'', toLowerCase m @ '':'' @ i])
       \<and> generateCacheTags m None None = [toLowerCase m @ '':list'']
       \<and> getTagsForModel opts S m None = [toLowerCase m @ '':list'']"
  using assms by (simp add: getTagsForModel_def generateCacheTags_default id_truthy_def)

theorem default_tags_witness:
  "customTagGenerator default_options = None \<and> getCustomTags test_schema ''User'' = None
   \<and> ''1'' \<noteq> []
   \<and> generateCacheTags ''User'' (Some ''1'') None = [''user:list'', ''user:1'']
   \<and> getTagsForModel default_options test_schema ''User'' (Some ''1'') = [''user:list'', ''user:1'']
   \<and> getTagsForModel default_options test_schema ''User'' None = [''user:list'']"
  using default_tags [OF no_generator_default no_custom_tags_User, of "''1''"]
    no_generator_default no_custom_tags_User
  by (simp add: toLowerCase_User)

text \<open>The claim C3 as stated fails at the empty id: no entity tag is produced for it.\<close>

theorem default_tags_counterexample:
  "generateCacheTags ''User'' (Some '''') None
     \<noteq> [toLowerCase ''User'' @ '':list'', toLowerCase ''User'' @ '':'' @ '''']"
  by (simp add: generateCacheTags_default id_truthy_def)

text \<open>
  C8. Default tag generation treats the empty string as an absent id:
  \<open>generateCacheTags(m, "")\<close> is \<open>[lower(m) + ":list"]\<close>, and the entity tag is appended
  exactly when the id is a string that is not empty. \<open>getTagsForModel\<close> without a custom
  generator makes the same test.
\<close>

theorem empty_id_as_absent:
  "generateCacheTags m (Some '''') None = [toLowerCase m @ '':list'']
   \<and> generateCacheTags m (Some '''') None = generateCacheTags m None None
   \<and> generateCacheTags m i None =
       (if \<exists>s. i = Some s \<and> s \<noteq> ''''
        then [toLowerCase m @ '':list'', toLowerCase m @ '':'' @ the i]
        else [toLowerCase m @ '':list''])
   \<and> (customTagGenerator opts = None \<longrightarrow>
        getTagsForModel opts S m (Some '''') = getTagsForModel opts S m None)"
proof (intro conjI impI)
  show "generateCacheTags m (Some '''') None = [toLowerCase m @ '':list'']"
    by (simp add: generateCacheTags_default id_truthy_def)
  show "generateCacheTags m (Some '''') None = generateCacheTags m None None"
    by (simp add: generateCacheTags_default id_truthy_def)
  show "generateCacheTags m i None =
       (if \<exists>s. i = Some s \<and> s \<noteq> ''''
        then [toLowerCase m @ '':list'', toLowerCase m @ '':'' @ the i]
        else [toLowerCase m @ '':list''])"
    by (cases i) (simp_all add: generateCacheTags_default id_truthy_def)
next
  assume "customTagGenerator opts = None"
  then show "getTagsForModel opts S m (Some '''') = getTagsForModel opts S m None"
    by (cases "getCustomTags S m")
       (simp_all add: getTagsForModel_def generateCacheTags_default id_truthy_def)
qed

theorem empty_id_as_absent_witness:
  "generateCacheTags ''Post'' (Some '''') None = [''post:list'']
   \<and> customTagGenerator default_options = None
   \<and> getTagsForModel default_options test_schema ''Post'' (Some '''') = [''post:list'']"
proof -
  note t = empty_id_as_absent [of "''Post''" None default_options test_schema]
  have a: "generateCacheTags ''Post'' (Some '''') None = [''post:list'']"
    using t by (simp add: toLowerCase_Post)
  have b: "getTagsForModel default_options test_schema ''Post'' (Some '''')
             = getTagsForModel default_options test_schema ''Post'' None"
    using t no_generator_default by simp
  have c: "getTagsForModel default_options test_schema ''Post'' None = [''post:list'']"
    using no_generator_default no_custom_tags_Post
    by (simp add: getTagsForModel_def generateCacheTags_default id_truthy_def toLowerCase_Post)
  from a b c no_generator_default show ?thesis by simp
qed

subsection \<open>Custom tags\<close>

lemma getCustomTags_fallback:
  assumes "firstArgValue (find (\<lambda>attr. attr_name attr = ''@@cache.tags'') (getModelAttributes S m)) = v"
      and "v = JArr [] \<or> \<not> isArray v"
  shows "getCustomTags S m = None \<or> getCustomTags S m = Some []"
  using assms by (cases v) (auto simp add: getCustomTags_def Let_def)

lemma getTagsForModel_no_custom:
  "getCustomTags S m = None \<or> getCustomTags S m = Some [] \<Longrightarrow>
   getTagsForModel opts S m i = generateCacheTags m i (customTagGenerator opts)"
  by (auto simp add: getTagsForModel_def generateCacheTags_def split: option.splits)

lemma getCustomTags_Some:
  "getCustomTags S m = Some ts \<Longrightarrow>
   \<exists>vs. firstArgValue (find (\<lambda>attr. attr_name attr = ''@@cache.tags'') (getModelAttributes S m)) = JArr vs
        \<and> ts = string_values vs"
  by (auto simp add: getCustomTags_def Let_def split: if_splits jsval.splits)

lemma getTagsForModel_differs:
  assumes "getTagsForModel opts S m i \<noteq> generateCacheTags m i (customTagGenerator opts)"
  shows "\<exists>vs. firstArgValue (find (\<lambda>attr. attr_name attr = ''@@cache.tags'') (getModelAttributes S m)) = JArr vs
              \<and> vs \<noteq> []"
proof -
  from assms getTagsForModel_no_custom [of S m opts i]
  obtain ts where ts: "getCustomTags S m = Some ts" "ts \<noteq> []"
    by (cases "getCustomTags S m") auto
  from getCustomTags_Some [OF ts(1)] obtain vs where
    vs: "firstArgValue (find (\<lambda>attr. attr_name attr = ''@@cache.tags'') (getModelAttributes S m)) = JArr vs"
        "ts = string_values vs"
    by blast
  from vs(2) ts(2) have "vs \<noteq> []" by auto
  with vs(1) show ?thesis by blast
qed

text \<open>
  C9. When the \<open>@@cache.tags\<close> attribute of a model declares an empty list, or a value that
  is not an array, the tags are resolved as if no custom tags were declared (by the custom
  generator when there is one, by default generation otherwise); tag resolution differs
  from that only when the declared list is not empty.
\<close>

theorem empty_custom_tags_fall_back:
  assumes "firstArgValue (find (\<lambda>attr. attr_name attr = ''@@cache.tags'') (getModelAttributes S m)) = v"
  shows "((v = JArr [] \<or> \<not> isArray v) \<longrightarrow>
            getTagsForModel opts S m i = generateCacheTags m i (customTagGenerator opts))
       \<and> (getTagsForModel opts S m i \<noteq> generateCacheTags m i (customTagGenerator opts) \<longrightarrow>
            (\<exists>vs. v = JArr vs \<and> vs \<noteq> []))"
proof (intro conjI impI)
  assume "v = JArr [] \<or> \<not> isArray v"
  from getCustomTags_fallback [OF assms this]
  show "getTagsForModel opts S m i = generateCacheTags m i (customTagGenerator opts)"
    by (rule getTagsForModel_no_custom)
next
  assume "getTagsForModel opts S m i \<noteq> generateCacheTags m i (customTagGenerator opts)"
  from getTagsForModel_differs [OF this] assms show "\<exists>vs. v = JArr vs \<and> vs \<noteq> []"
    by simp
qed

lemma declared_tags_Tagged:
  "firstArgValue (find (\<lambda>attr. attr_name attr = ''@@cache.tags'') (getModelAttributes test_schema ''Tagged''))
     = JArr []"
  by code_simp

lemma toLowerCase_Tagged: "toLowerCase ''Tagged'' = ''tagged''"
  by code_simp

theorem empty_custom_tags_fall_back_witness:
  "firstArgValue (find (\<lambda>attr. attr_name attr = ''@@cache.tags'') (getModelAttributes test_schema ''Tagged''))
     = JArr []
   \<and> getTagsForModel default_options test_schema ''Tagged'' (Some ''7'') = [''tagged:list'', ''tagged:7'']"
proof -
  note t = empty_custom_tags_fall_back [OF declared_tags_Tagged, of default_options "Some ''7''"]
  have "getTagsForModel default_options test_schema ''Tagged'' (Some ''7'')
          = generateCacheTags ''Tagged'' (Some ''7'') (customTagGenerator default_options)"
    using t by simp
  also have "\<dots> = [''tagged:list'', ''tagged:7'']"
    by (simp add: no_generator_default generateCacheTags_default id_truthy_def toLowerCase_Tagged)
  finally show ?thesis using declared_tags_Tagged by simp
qed

subsection \<open>Relation widening on reads\<close>

lemma included_relation_in_list:
  assumes "truthy a" "typeof a = TObject"
      and "truthy (getProp a ''include'')" "typeof (getProp a ''include'') = TObject"
      and "(k, v) \<in> set (Object_entries (getProp a ''include''))" "truthy v"
      and "is_relation (getModelFields S m) k"
  shows "type_of_field (getModelFields S m) k \<in> set (extractIncludedRelations S a m)"
proof -
  from assms(5-7) have
    "(k, v) \<in> set (filter (\<lambda>(fieldName, v). truthy v \<and> is_relation (getModelFields S m) fieldName)
                     (Object_entries (getProp a ''include'')))"
    by simp
  then have "type_of_field (getModelFields S m) k
      \<in> set (map (\<lambda>(fieldName, v). type_of_field (getModelFields S m) fieldName)
          (filter (\<lambda>(fieldName, v). truthy v \<and> is_relation (getModelFields S m) fieldName)
             (Object_entries (getProp a ''include''))))"
    by (force simp del: set_filter)
  with assms(1-4) show ?thesis
    by (simp add: extractIncludedRelations_def Let_def del: set_filter set_map)
qed

lemma selected_relation_in_list:
  assumes "truthy a" "typeof a = TObject"
      and "truthy (getProp a ''select'')" "typeof (getProp a ''select'') = TObject"
      and "(k, v) \<in> set (Object_entries (getProp a ''select''))" "truthy v" "typeof v = TObject"
      and "is_relation (getModelFields S m) k"
  shows "type_of_field (getModelFields S m) k \<in> set (extractIncludedRelations S a m)"
proof -
  from assms(5-8) have
    "(k, v) \<in> set (filter (\<lambda>(fieldName, v). truthy v \<and> typeof v = TObject
                              \<and> is_relation (getModelFields S m) fieldName)
                     (Object_entries (getProp a ''select'')))"
    by simp
  then have "type_of_field (getModelFields S m) k
      \<in> set (map (\<lambda>(fieldName, v). type_of_field (getModelFields S m) fieldName)
          (filter (\<lambda>(fieldName, v). truthy v \<and> typeof v = TObject
                     \<and> is_relation (getModelFields S m) fieldName)
             (Object_entries (getProp a ''select''))))"
    by (force simp del: set_filter)
  with assms(1-4) show ?thesis
    by (simp add: extractIncludedRelations_def Let_def del: set_filter set_map)
qed

lemma readTags_append:
  "readTags opts S m a =
     getTagsForModel opts S m (extractIdFromArgs a)
     @ map (\<lambda>t. toLowerCase t @ '':list'')
         (filter (\<lambda>t. \<not> isExcludedModel opts S t) (extractIncludedRelations S a m))"
  by (simp add: readTags_def Let_def)

lemma readTags_relation:
  "t \<in> set (extractIncludedRelations S a m) \<Longrightarrow> \<not> isExcludedModel opts S t \<Longrightarrow>
   toLowerCase t @ '':list'' \<in> set (readTags opts S m a)"
  by (simp add: readTags_append)

lemma readTags_only:
  "x \<in> set (readTags opts S m a) \<Longrightarrow>
   x \<in> set (getTagsForModel opts S m (extractIdFromArgs a))
   \<or> (\<exists>t \<in> set (extractIncludedRelations S a m). \<not> isExcludedModel opts S t \<and> x = toLowerCase t @ '':list'')"
  by (auto simp add: readTags_append)

lemma extractIdFromArgs_include_author:
  "extractIdFromArgs (JObj [(''include'', JObj [(''author'', JBool True)])]) = None"
  by (simp add: extractIdFromArgs_def getProp_def)

lemma extractIdFromArgs_empty: "extractIdFromArgs (JObj []) = None"
  by (simp add: extractIdFromArgs_def getProp_def)

lemma extractIncludedRelations_empty: "extractIncludedRelations S (JObj []) m = []"
  by (simp add: extractIncludedRelations_def getProp_def)

lemma extractIncludedRelations_include_author:
  assumes "map_of (getModelFields S ''Post'') ''author'' = Some f"
      and "field_relation f \<noteq> None" and "field_type f = ''User''"
  shows "extractIncludedRelations S (JObj [(''include'', JObj [(''author'', JBool True)])]) ''Post''
           = [''User'']"
  using assms
  by (simp add: extractIncludedRelations_def getProp_def is_relation_def type_of_field_def)

lemma readTags_Post_include_author:
  assumes "map_of (getModelFields S ''Post'') ''author'' = Some f"
      and "field_relation f \<noteq> None" and "field_type f = ''User''"
      and "customTagGenerator opts = None" and "getCustomTags S ''Post'' = None"
      and "\<not> isExcludedModel opts S ''User''"
  shows "readTags opts S ''Post'' (JObj [(''include'', JObj [(''author'', JBool True)])])
           = [''post:list'', ''user:list'']"
  using assms(4-6)
  by (simp add: readTags_append extractIncludedRelations_include_author [OF assms(1-3)]
      extractIdFromArgs_include_author getTagsForModel_def generateCacheTags_default
      id_truthy_def toLowerCase_Post toLowerCase_User)

lemma readTags_Post_empty:
  assumes "customTagGenerator opts = None" and "getCustomTags S ''Post'' = None"
  shows "readTags opts S ''Post'' (JObj []) = [''post:list'']"
  using assms
  by (simp add: readTags_append extractIncludedRelations_empty extractIdFromArgs_empty
      getTagsForModel_def generateCacheTags_default id_truthy_def toLowerCase_Post)

text \<open>
  C5. In a schema where the field \<open>author\<close> of \<open>Post\<close> is a relation to \<open>User\<close> (default
  tags, \<open>User\<close> not excluded), a read of \<open>Post\<close> with \<open>{include: {author: true}}\<close> has the
  tags \<open>post:list\<close> and \<open>user:list\<close>, and a read with \<open>{}\<close> has exactly \<open>[post:list]\<close>.
  In general a relation field named in \<open>include\<close> with a truthy value, or in \<open>select\<close> with
  a value that is an object, adds the list tag of its model unless that model is
  excluded, and every tag of a read is a tag of the model or such a list tag.
\<close>

theorem read_relation_widening:
  "(map_of (getModelFields S ''Post'') ''author'' = Some f \<and> field_relation f \<noteq> None
      \<and> field_type f = ''User'' \<and> customTagGenerator opts = None
      \<and> getCustomTags S ''Post'' = None \<and> \<not> isExcludedModel opts S ''User''
    \<longrightarrow> readTags opts S ''Post'' (JObj [(''include'', JObj [(''author'', JBool True)])])
          = [''post:list'', ''user:list'']
        \<and> readTags opts S ''Post'' (JObj []) = [''post:list''])
   \<and> (truthy a \<and> typeof a = TObject \<and> is_relation (getModelFields S m) k
        \<and> \<not> isExcludedModel opts S (type_of_field (getModelFields S m) k)
        \<and> (truthy (getProp a ''include'') \<and> typeof (getProp a ''include'') = TObject
             \<and> (k, v) \<in> set (Object_entries (getProp a ''include'')) \<and> truthy v
           \<or> truthy (getProp a ''select'') \<and> typeof (getProp a ''select'') = TObject
             \<and> (k, v) \<in> set (Object_entries (getProp a ''select'')) \<and> truthy v \<and> typeof v = TObject)
      \<longrightarrow> toLowerCase (type_of_field (getModelFields S m) k) @ '':list'' \<in> set (readTags opts S m a))
   \<and> (x \<in> set (readTags opts S m a) \<longrightarrow>
        x \<in> set (getTagsForModel opts S m (extractIdFromArgs a))
        \<or> (\<exists>t \<in> set (extractIncludedRelations S a m).
              \<not> isExcludedModel opts S t \<and> x = toLowerCase t @ '':list''))"
proof (intro conjI impI)
  assume h: "map_of (getModelFields S ''Post'') ''author'' = Some f \<and> field_relation f \<noteq> None
      \<and> field_type f = ''User'' \<and> customTagGenerator opts = None
      \<and> getCustomTags S ''Post'' = None \<and> \<not> isExcludedModel opts S ''User''"
  then show "readTags opts S ''Post'' (JObj [(''include'', JObj [(''author'', JBool True)])])
          = [''post:list'', ''user:list'']"
    by (intro readTags_Post_include_author [of S f opts]) simp_all
  from h show "readTags opts S ''Post'' (JObj []) = [''post:list'']"
    by (intro readTags_Post_empty) simp_all
next
  assume h: "truthy a \<and> typeof a = TObject \<and> is_relation (getModelFields S m) k
        \<and> \<not> isExcludedModel opts S (type_of_field (getModelFields S m) k)
        \<and> (truthy (getProp a ''include'') \<and> typeof (getProp a ''include'') = TObject
             \<and> (k, v) \<in> set (Object_entries (getProp a ''include'')) \<and> truthy v
           \<or> truthy (getProp a ''select'') \<and> typeof (getProp a ''select'') = TObject
             \<and> (k, v) \<in> set (Object_entries (getProp a ''select'')) \<and> truthy v \<and> typeof v = TObject)"
  then have "type_of_field (getModelFields S m) k \<in> set (extractIncludedRelations S a m)"
    using included_relation_in_list [of a k v S m] selected_relation_in_list [of a k v S m]
    by argo
  with h show "toLowerCase (type_of_field (getModelFields S m) k) @ '':list'' \<in> set (readTags opts S m a)"
    using readTags_relation by simp
next
  assume "x \<in> set (readTags opts S m a)"
  then show "x \<in> set (getTagsForModel opts S m (extractIdFromArgs a))
        \<or> (\<exists>t \<in> set (extractIncludedRelations S a m).
              \<not> isExcludedModel opts S t \<and> x = toLowerCase t @ '':list'')"
    by (rule readTags_only)
qed

lemma Post_author_field:
  "map_of (getModelFields test_schema ''Post'') ''author''
     = Some (snd (relation_field ''author'' ''User'' ''posts'' [''authorId''] [''id'']))"
  by code_simp

lemma Post_author_relation:
  "field_relation (snd (relation_field ''author'' ''User'' ''posts'' [''authorId''] [''id''])) \<noteq> None
   \<and> field_type (snd (relation_field ''author'' ''User'' ''posts'' [''authorId''] [''id''])) = ''User''"
  by (simp add: relation_field_def)

lemma User_not_excluded: "\<not> isExcludedModel default_options test_schema ''User''"
  by code_simp

theorem read_relation_widening_witness:
  "readTags default_options test_schema ''Post'' (JObj [(''include'', JObj [(''author'', JBool True)])])
     = [''post:list'', ''user:list'']
   \<and> readTags default_options test_schema ''Post'' (JObj []) = [''post:list'']"
  using read_relation_widening [of test_schema
      "snd (relation_field ''author'' ''User'' ''posts'' [''authorId''] [''id''])" default_options]
    Post_author_field Post_author_relation no_generator_default no_custom_tags_Post User_not_excluded
  by simp

subsection \<open>Tags of a read with a custom generator\<close>

lemma call_proceed_cache: "cache (snd (call_proceed c w)) = cache w"
  by (simp add: call_proceed_def split: prod.splits)

lemma read_catch_cache: "cache (snd (read_catch S rt c w)) = cache w"
proof -
  obtain r w1 where p: "call_proceed c w = (r, w1)" by (cases "call_proceed c w")
  then have "cache w1 = cache w" using call_proceed_cache [of c w] by simp
  with p show ?thesis
    by (simp add: read_catch_def split: sum.splits)
qed

lemma cache_miss_callback_cache: "cache (snd (cache_miss_callback c w)) = cache w"
proof -
  obtain r w1 where p: "call_proceed c w = (r, w1)" by (cases "call_proceed c w")
  then have "cache w1 = cache w" using call_proceed_cache [of c w] by simp
  with p show ?thesis
    by (simp add: cache_miss_callback_def split: sum.splits)
qed

lemma cachedQuery_cache:
  "cache (snd (cachedQuery rt (cache_miss_callback c) key secs tags w)) = cache w
   \<or> (\<exists>v. cache (snd (cachedQuery rt (cache_miss_callback c) key secs tags w))
            = cache w @ [(key, \<lparr>entry_value = v, entry_tags = tags, entry_revalidate = secs\<rparr>)])"
proof -
  obtain r w1 where p: "cache_miss_callback c w = (r, w1)" by (cases "cache_miss_callback c w")
  then have "cache w1 = cache w" using cache_miss_callback_cache [of c w] by simp
  with p show ?thesis
    by (simp add: cachedQuery_def split: sum.splits option.splits)
qed

lemma read_try_cache:
  "cache (snd (read_try S rt c key secs tags w)) = cache w
   \<or> (\<exists>v. cache (snd (read_try S rt c key secs tags w))
            = cache w @ [(key, \<lparr>entry_value = v, entry_tags = tags, entry_revalidate = secs\<rparr>)])"
proof -
  obtain r w1 where p: "cachedQuery rt (cache_miss_callback c) key secs tags w = (r, w1)"
    by (cases "cachedQuery rt (cache_miss_callback c) key secs tags w")
  have "snd (read_try S rt c key secs tags w) = w1"
    using p by (simp add: read_try_def split: sum.splits)
  with cachedQuery_cache [of rt c key secs tags w] p show ?thesis by simp
qed

lemma onQuery_cache:
  "cache (snd (onQuery opts S rt c w)) = cache w
   \<or> (\<exists>v. cache (snd (onQuery opts S rt c w))
            = cache w @ [(generateCacheKey (ctx_model c) (ctx_operation c) (ctx_args c) (ctx_auth_id c),
                 \<lparr>entry_value = v, entry_tags = readTags opts S (ctx_model c) (ctx_args c),
                  entry_revalidate = getCacheRevalidateSeconds (getLifeForModel opts S (ctx_model c))\<rparr>)])"
proof (cases "\<not> isExcludedModel opts S (ctx_model c) \<and> isReadOperation (ctx_operation c)")
  case False
  then show ?thesis by (auto simp add: onQuery_def call_proceed_cache)
next
  case True
  let ?key = "generateCacheKey (ctx_model c) (ctx_operation c) (ctx_args c) (ctx_auth_id c)"
  let ?secs = "getCacheRevalidateSeconds (getLifeForModel opts S (ctx_model c))"
  let ?tags = "readTags opts S (ctx_model c) (ctx_args c)"
  obtain r w1 where p: "read_try S rt c ?key ?secs ?tags w = (r, w1)"
    by (cases "read_try S rt c ?key ?secs ?tags w")
  have "cache (snd (onQuery opts S rt c w)) = cache w1"
    using True p by (simp add: onQuery_def Let_def read_catch_cache split: sum.splits)
  with read_try_cache [of S rt c ?key ?secs ?tags w] p show ?thesis by simp
qed

lemma readTags_generator:
  "customTagGenerator opts = Some g \<Longrightarrow>
   readTags opts S m a =
     g m (extractIdFromArgs a)
     @ map (\<lambda>t. toLowerCase t @ '':list'')
         (filter (\<lambda>t. \<not> isExcludedModel opts S t) (extractIncludedRelations S a m))"
  by (simp add: readTags_append getTagsForModel_def)

text \<open>
  C10. With a custom tag generator, the tags of a read are the generator's output followed
  by the list tag of every included or selected relation whose model is not excluded; when
  there is such a relation the tag set is strictly longer than the generator's output.
  Every entry that \<open>onQuery\<close> writes to the store carries exactly these tags.
\<close>

theorem generator_tags_are_widened:
  assumes "customTagGenerator opts = Some g"
  shows "readTags opts S m a =
           g m (extractIdFromArgs a)
           @ map (\<lambda>t. toLowerCase t @ '':list'')
               (filter (\<lambda>t. \<not> isExcludedModel opts S t) (extractIncludedRelations S a m))
       \<and> ((\<exists>t \<in> set (extractIncludedRelations S a m). \<not> isExcludedModel opts S t) \<longrightarrow>
            readTags opts S m a \<noteq> g m (extractIdFromArgs a)
            \<and> length (g m (extractIdFromArgs a)) < length (readTags opts S m a))
       \<and> (\<forall>e. (generateCacheKey (ctx_model c) (ctx_operation c) (ctx_args c) (ctx_auth_id c), e)
                 \<in> set (cache (snd (onQuery opts S rt c w))) - set (cache w) \<longrightarrow>
               entry_tags e =
                 g (ctx_model c) (extractIdFromArgs (ctx_args c))
                 @ map (\<lambda>t. toLowerCase t @ '':list'')
                     (filter (\<lambda>t. \<not> isExcludedModel opts S t)
                        (extractIncludedRelations S (ctx_args c) (ctx_model c))))"
proof (intro conjI impI allI)
  show eq: "readTags opts S m a =
           g m (extractIdFromArgs a)
           @ map (\<lambda>t. toLowerCase t @ '':list'')
               (filter (\<lambda>t. \<not> isExcludedModel opts S t) (extractIncludedRelations S a m))"
    by (rule readTags_generator [OF assms])
  assume "\<exists>t \<in> set (extractIncludedRelations S a m). \<not> isExcludedModel opts S t"
  then have ne: "filter (\<lambda>t. \<not> isExcludedModel opts S t) (extractIncludedRelations S a m) \<noteq> []"
    by (simp add: filter_empty_conv)
  then show "length (g m (extractIdFromArgs a)) < length (readTags opts S m a)"
    by (simp add: eq)
  then show "readTags opts S m a \<noteq> g m (extractIdFromArgs a)"
    by auto
next
  fix e
  let ?key = "generateCacheKey (ctx_model c) (ctx_operation c) (ctx_args c) (ctx_auth_id c)"
  assume "(?key, e) \<in> set (cache (snd (onQuery opts S rt c w))) - set (cache w)"
  with onQuery_cache [of opts S rt c w]
  have "entry_tags e = readTags opts S (ctx_model c) (ctx_args c)"
    by auto
  then show "entry_tags e =
                 g (ctx_model c) (extractIdFromArgs (ctx_args c))
                 @ map (\<lambda>t. toLowerCase t @ '':list'')
                     (filter (\<lambda>t. \<not> isExcludedModel opts S t)
                        (extractIncludedRelations S (ctx_args c) (ctx_model c)))"
    by (simp add: readTags_generator [OF assms])
qed

lemma generator_options_generator: "customTagGenerator generator_options = Some versioned_tags"
  by (simp add: generator_options_def)

lemma User_not_excluded_generator: "\<not> isExcludedModel generator_options test_schema ''User''"
  by code_simp

lemma Post_include_author_relations:
  "extractIncludedRelations test_schema (JObj [(''include'', JObj [(''author'', JBool True)])]) ''Post''
     = [''User'']"
  using extractIncludedRelations_include_author [OF Post_author_field] Post_author_relation
  by simp

theorem generator_tags_are_widened_witness:
  "customTagGenerator generator_options = Some versioned_tags
   \<and> (\<exists>t \<in> set (extractIncludedRelations test_schema
                   (JObj [(''include'', JObj [(''author'', JBool True)])]) ''Post'').
         \<not> isExcludedModel generator_options test_schema t)
   \<and> readTags generator_options test_schema ''Post''
        (JObj [(''include'', JObj [(''author'', JBool True)])]) = [''v1:post:list'', ''user:list'']
   \<and> versioned_tags ''Post'' None = [''v1:post:list'']"
proof -
  note t = generator_tags_are_widened [OF generator_options_generator, of test_schema "''Post''"
      "JObj [(''include'', JObj [(''author'', JBool True)])]"]
  have g: "versioned_tags ''Post'' None = [''v1:post:list'']"
    by (simp add: versioned_tags_def id_truthy_def toLowerCase_Post)
  have r: "readTags generator_options test_schema ''Post''
        (JObj [(''include'', JObj [(''author'', JBool True)])]) = [''v1:post:list'', ''user:list'']"
    using t [THEN conjunct1]
    by (simp add: Post_include_author_relations extractIdFromArgs_include_author g
        User_not_excluded_generator toLowerCase_User)
  show ?thesis
    using g r generator_options_generator
    by (simp add: Post_include_author_relations User_not_excluded_generator)
qed

subsection \<open>Invalidation after a mutation\<close>

lemma events_invalidateTag:
  "events (invalidateTag rt tag w) = events w @ [invalidation_event rt tag]"
  by (simp add: invalidateTag_def invalidation_event_def)

lemma events_invalidate_entities:
  "events (invalidate_entities rt model rows w)
     = events w @ map (\<lambda>entity. invalidation_event rt (entity_tag rt model entity))
                    (filter carries_id rows)"
  by (induction rows arbitrary: w)
     (simp_all add: events_invalidateTag carries_id_def entity_tag_def)

lemma events_invalidate_related:
  "events (invalidate_related opts S rt ms w)
     = events w @ map (\<lambda>relatedModel. invalidation_event rt (toLowerCase relatedModel @ '':list''))
                    (filter (\<lambda>relatedModel. \<not> isExcludedModel opts S relatedModel) ms)"
  by (induction ms arbitrary: w)
     (simp_all add: events_invalidateTag invalidateRelatedModelCache_def)

lemma events_call_loader:
  "events (snd (call_loader loadEntities w)) = events w @ [LoadEntities]"
  by (simp add: call_loader_def split: prod.splits)

lemma db_invalidateTag: "db (invalidateTag rt tag w) = db w"
  by (simp add: invalidateTag_def)

lemma fst_call_loader: "fst (call_loader loadEntities w) = fst (loadEntities (db w))"
  by (simp add: call_loader_def split: prod.splits)

lemma events_invalidateCacheForModel:
  "events (invalidateCacheForModel rt model loadEntities w)
     = events w @ [invalidation_event rt (toLowerCase model @ '':list''), LoadEntities]
       @ map (\<lambda>entity. invalidation_event rt (entity_tag rt model entity))
           (filter carries_id (loaded_rows (fst (loadEntities (db w)))))"
proof -
  let ?w1 = "invalidateTag rt (toLowerCase model @ '':list'') w"
  obtain r w2 where p: "call_loader loadEntities ?w1 = (r, w2)"
    by (cases "call_loader loadEntities ?w1")
  have e2: "events w2 = events w @ [invalidation_event rt (toLowerCase model @ '':list''), LoadEntities]"
    using events_call_loader [of loadEntities ?w1] p by (simp add: events_invalidateTag)
  have r: "r = fst (loadEntities (db w))"
    using fst_call_loader [of loadEntities ?w1] p by (simp add: db_invalidateTag)
  have "events (invalidateCacheForModel rt model loadEntities w)
     = events w @ [invalidation_event rt (toLowerCase model @ '':list''), LoadEntities]
       @ map (\<lambda>entity. invalidation_event rt (entity_tag rt model entity))
           (filter carries_id (loaded_rows r))"
  proof (cases r)
    case (Inl e)
    with p e2 show ?thesis by (simp add: invalidateCacheForModel_def Let_def)
  next
    case (Inr entities)
    with p e2 show ?thesis
      by (cases entities) (simp_all add: invalidateCacheForModel_def Let_def events_invalidate_entities)
  qed
  with r show ?thesis by simp
qed

text \<open>
  C6. After the mutation of a model \<open>m\<close>, \<open>afterEntityMutation\<close> invalidates, one after the
  other: the list tag of \<open>m\<close>; then, the loader having been called, the entity tag
  \<open>lower(m) + ":" + id\<close> of every loaded row that carries an \<open>id\<close>, in the order of the rows;
  then the list tag of the model of every relation field of \<open>m\<close> that is not excluded, in
  the order of the fields. Nothing else is added to the events.
\<close>

theorem mutation_invalidation_order:
  "events (afterEntityMutation opts S rt m loadEntities w)
     = events w
       @ [invalidation_event rt (toLowerCase m @ '':list'')]
       @ [LoadEntities]
       @ map (\<lambda>entity. invalidation_event rt (toLowerCase m @ '':'' @ js_toString rt (getProp entity ''id'')))
           (filter carries_id (loaded_rows (fst (loadEntities (db w)))))
       @ map (\<lambda>relatedModel. invalidation_event rt (toLowerCase relatedModel @ '':list''))
           (filter (\<lambda>relatedModel. \<not> isExcludedModel opts S relatedModel) (getRelatedModels S m))"
  by (simp add: afterEntityMutation_def Let_def events_invalidate_related
      events_invalidateCacheForModel entity_tag_def)

lemma User_related: "getRelatedModels test_schema ''User'' = [''Comment'', ''Post'']"
  by code_simp

lemma Comment_not_excluded: "\<not> isExcludedModel default_options test_schema ''Comment''"
  by code_simp

lemma Post_not_excluded: "\<not> isExcludedModel default_options test_schema ''Post''"
  by code_simp

lemma user_row_carries_id:
  "carries_id (JObj [(''id'', JStr ''user-1''), (''name'', JStr ''Updated User'')])"
  by (simp add: carries_id_def hasProp_def)

lemma user_row_id:
  "getProp (JObj [(''id'', JStr ''user-1''), (''name'', JStr ''Updated User'')]) ''id'' = JStr ''user-1''"
  by (simp add: getProp_def)

theorem mutation_invalidation_order_witness:
  "events (afterEntityMutation default_options test_schema route_runtime ''User'' user_loader empty_world)
     = [RevalidateTag ''user:list'' ''max'', LoadEntities, RevalidateTag ''user:user-1'' ''max'',
        RevalidateTag ''comment:list'' ''max'', RevalidateTag ''post:list'' ''max'']"
proof -
  have i: "\<And>tag. invalidation_event route_runtime tag = RevalidateTag tag ''max''"
    by (simp add: invalidation_event_def route_runtime_def)
  have l: "loaded_rows (fst (user_loader 0))
             = [JObj [(''id'', JStr ''user-1''), (''name'', JStr ''Updated User'')]]"
    by (simp add: user_loader_def)
  show ?thesis
    using mutation_invalidation_order [of default_options test_schema route_runtime "''User''"
        user_loader empty_world]
    by (simp add: i l User_related Comment_not_excluded Post_not_excluded user_row_carries_id
        user_row_id toLowerCase_User toLowerCase_Comment toLowerCase_Post empty_world_def)
qed

subsection \<open>Cache keys\<close>

lemma JSON_serialize_object: "truthy v \<Longrightarrow> typeof v = TObject \<Longrightarrow> JSON_serialize v \<noteq> None"
  by (cases v) (simp_all split: sum.splits)

text \<open>
  C7. \<open>generateCacheKey\<close> reads nothing but its four arguments: on the same model,
  operation, arguments and caller id it returns the same key sequence, namely the base
  key alone, or the base key and the serialised arguments when these are an object.
\<close>

theorem generateCacheKey_deterministic:
  "(model = model' \<and> operation = operation' \<and> queryArgs = queryArgs' \<and> userId = userId'
      \<longrightarrow> generateCacheKey model operation queryArgs userId
            = generateCacheKey model' operation' queryArgs' userId')
   \<and> generateCacheKey model operation queryArgs userId =
       (if truthy queryArgs \<and> typeof queryArgs = TObject
        then [(if id_truthy userId then ''user:'' @ the userId @ '':'' else '''')
                @ toLowerCase model @ '':'' @ operation,
              the (JSON_serialize queryArgs)]
        else [(if id_truthy userId then ''user:'' @ the userId @ '':'' else '''')
                @ toLowerCase model @ '':'' @ operation])"
proof (intro conjI impI)
  assume "model = model' \<and> operation = operation' \<and> queryArgs = queryArgs' \<and> userId = userId'"
  then show "generateCacheKey model operation queryArgs userId
            = generateCacheKey model' operation' queryArgs' userId'"
    by simp
next
  show "generateCacheKey model operation queryArgs userId =
       (if truthy queryArgs \<and> typeof queryArgs = TObject
        then [(if id_truthy userId then ''user:'' @ the userId @ '':'' else '''')
                @ toLowerCase model @ '':'' @ operation,
              the (JSON_serialize queryArgs)]
        else [(if id_truthy userId then ''user:'' @ the userId @ '':'' else '''')
                @ toLowerCase model @ '':'' @ operation])"
    using JSON_serialize_object [of queryArgs]
    by (auto simp add: generateCacheKey_def Let_def JSON_stringify_def split: option.splits)
qed

lemma key_User_findMany_where:
  \<open>generateCacheKey ''User'' ''findMany'' (JObj [(''where'', JObj [(''id'', JStr ''1'')])]) (Some ''user-123'')
     = [''user:user-123:user:findMany'', ''{"where":{"id":"1"}}'']\<close>
  by code_simp

theorem generateCacheKey_deterministic_witness:
  \<open>generateCacheKey ''User'' ''findMany'' (JObj [(''where'', JObj [(''id'', JStr ''1'')])]) (Some ''user-123'')
     = generateCacheKey ''User'' ''findMany'' (JObj [(''where'', JObj [(''id'', JStr ''1'')])]) (Some ''user-123'')
   \<and> generateCacheKey ''User'' ''findMany'' (JObj [(''where'', JObj [(''id'', JStr ''1'')])]) (Some ''user-123'')
     = [''user:user-123:user:findMany'', ''{"where":{"id":"1"}}'']\<close>
  using generateCacheKey_deterministic [of "''User''" "''User''" "''findMany''" "''findMany''"
      "JObj [(''where'', JObj [(''id'', JStr ''1'')])]" "JObj [(''where'', JObj [(''id'', JStr ''1'')])]"
      "Some ''user-123''" "Some ''user-123''"]
    key_User_findMany_where
  by simp

subsection \<open>A read whose executor fails\<close>

lemma call_proceed_eq:
  "ctx_proceed c (ctx_args c) (db w) = (r, d) \<Longrightarrow>
   call_proceed c w = (r, w\<lparr>db := d, events := events w @ [Proceed (ctx_args c)]\<rparr>)"
  by (simp add: call_proceed_def)

text \<open>
  With the store available and the key not in it, a rejection of the executor inside the
  cached callback reaches the \<open>catch\<close> block, which calls the executor again: the result of
  the read is the result of that second call. Nothing is written to the store.
\<close>

lemma onQuery_failed_read:
  assumes "\<not> isExcludedModel opts S (ctx_model c)" and "isReadOperation (ctx_operation c)"
      and "unstable_cache_available rt"
      and "map_of (cache w)
             (generateCacheKey (ctx_model c) (ctx_operation c) (ctx_args c) (ctx_auth_id c)) = None"
      and "ctx_proceed c (ctx_args c) (db w) = (Inl e, d)"
  shows "onQuery opts S rt c w
           = read_catch S rt c (w\<lparr>db := d, events := events w @ [Proceed (ctx_args c)]\<rparr>)"
  using assms(1-4) call_proceed_eq [OF assms(5)]
  by (simp add: onQuery_def Let_def read_try_def cachedQuery_def cache_miss_callback_def)

text \<open>The store is as it was: nothing is written for the read that failed.\<close>

lemma failed_read_writes_nothing:
  assumes "\<not> isExcludedModel opts S (ctx_model c)" and "isReadOperation (ctx_operation c)"
      and "unstable_cache_available rt"
      and "map_of (cache w)
             (generateCacheKey (ctx_model c) (ctx_operation c) (ctx_args c) (ctx_auth_id c)) = None"
      and "ctx_proceed c (ctx_args c) (db w) = (Inl e, d)"
  shows "cache (snd (onQuery opts S rt c w)) = cache w"
  using read_catch_cache [of S rt c "w\<lparr>db := d, events := events w @ [Proceed (ctx_args c)]\<rparr>"]
  by (simp add: onQuery_failed_read [OF assms])

text \<open>When the second call rejects as well, it is its failure that the caller gets.\<close>

lemma failed_read_fails_again:
  assumes "\<not> isExcludedModel opts S (ctx_model c)" and "isReadOperation (ctx_operation c)"
      and "unstable_cache_available rt"
      and "map_of (cache w)
             (generateCacheKey (ctx_model c) (ctx_operation c) (ctx_args c) (ctx_auth_id c)) = None"
      and "ctx_proceed c (ctx_args c) (db w) = (Inl e, d)"
      and "ctx_proceed c (ctx_args c) d = (Inl e', d')"
  shows "onQuery opts S rt c w
           = (Inl e', w\<lparr>db := d', events := events w @ [Proceed (ctx_args c), Proceed (ctx_args c)]\<rparr>)"
  using assms(6)
  by (simp add: onQuery_failed_read [OF assms(1-5)] read_catch_def call_proceed_def)

text \<open>
  Where \<open>unstable_cache\<close> is not available the executor is called once, and its failure
  is the failure of the read.
\<close>

lemma unavailable_cache_read:
  assumes "\<not> isExcludedModel opts S (ctx_model c)" and "isReadOperation (ctx_operation c)"
      and "\<not> unstable_cache_available rt"
      and "ctx_proceed c (ctx_args c) (db w) = (Inl e, d)"
  shows "onQuery opts S rt c w = (Inl e, w\<lparr>db := d, events := events w @ [Proceed (ctx_args c)]\<rparr>)"
  using assms
  by (simp add: onQuery_def Let_def read_try_def cachedQuery_def read_catch_def call_proceed_def)

lemma read_users_not_excluded: "\<not> isExcludedModel default_options test_schema (ctx_model read_users)"
  by code_simp

lemma read_users_is_read: "isReadOperation (ctx_operation read_users)"
  by code_simp

lemma read_users_first_call:
  "ctx_proceed read_users (ctx_args read_users) (db empty_world)
     = (Inl (ExecutorError ''connection reset''), 1)"
  by (simp add: read_users_def flaky_executor_def empty_world_def)

lemma read_users_second_call:
  "ctx_proceed read_users (ctx_args read_users) 1 = (Inr (JArr []), 2)"
  by (simp add: read_users_def flaky_executor_def)

text \<open>
  C1 fails on the code. A read of \<open>User\<close> whose executor rejects once (a connection that is
  reset) and resolves when called again: with \<open>unstable_cache\<close> available the read
  resolves, the executor having been called twice. The rejection is swallowed and the data
  operation retried.
\<close>

theorem failed_read_is_retried:
  "onQuery default_options test_schema route_runtime read_users empty_world
     = (Inr (JArr []),
        \<lparr>db = 2, cache = [], events = [Proceed (JObj []), Proceed (JObj [])]\<rparr>)"
proof -
  have a: "unstable_cache_available route_runtime" by (simp add: route_runtime_def)
  have k: "map_of (cache empty_world)
             (generateCacheKey (ctx_model read_users) (ctx_operation read_users)
                (ctx_args read_users) (ctx_auth_id read_users)) = None"
    by (simp add: empty_world_def)
  have args: "ctx_args read_users = JObj []" by (simp add: read_users_def)
  have m: "ctx_model read_users = ''User''" by (simp add: read_users_def)
  have second: "call_proceed read_users
                  (empty_world\<lparr>db := 1, events := events empty_world @ [Proceed (JObj [])]\<rparr>)
                = (Inr (JArr []),
                   \<lparr>db = 2, cache = [], events = [Proceed (JObj []), Proceed (JObj [])]\<rparr>)"
    using read_users_second_call by (simp add: call_proceed_def args empty_world_def)
  have "onQuery default_options test_schema route_runtime read_users empty_world
          = read_catch test_schema route_runtime read_users
              (empty_world\<lparr>db := 1, events := events empty_world @ [Proceed (JObj [])]\<rparr>)"
    using onQuery_failed_read [OF read_users_not_excluded read_users_is_read a k read_users_first_call]
    by (simp add: args)
  also have "\<dots> = (Inr (JArr []),
        \<lparr>db = 2, cache = [], events = [Proceed (JObj []), Proceed (JObj [])]\<rparr>)"
    unfolding read_catch_def second by (simp add: restoreDates_def)
  finally show ?thesis .
qed

subsection \<open>Printing and reading dates\<close>

lemma is_digit_digit_char: "k < 10 \<Longrightarrow> is_digit (digit_char k)"
  by (simp add: is_digit_def digit_char_def)

lemma digit_value_digit_char: "k < 10 \<Longrightarrow> digit_value (digit_char k) = k"
  by (simp add: digit_value_def digit_char_def)

lemma is_digit_not_sign: "is_digit c \<Longrightarrow> c \<noteq> CHR ''+'' \<and> c \<noteq> CHR ''-''"
  by (auto simp add: is_digit_def)

lemma length_fixed_digits: "length (fixed_digits w n) = w"
  by (induction w arbitrary: n) simp_all

lemma all_digits_fixed_digits: "list_all is_digit (fixed_digits w n)"
  by (induction w arbitrary: n) (simp_all add: is_digit_digit_char)

lemma parse_nat_fixed_digits: "n < 10 ^ w \<Longrightarrow> parse_nat (fixed_digits w n) = n"
proof (induction w arbitrary: n)
  case 0
  then show ?case by (simp add: parse_nat_def)
next
  case (Suc w)
  from Suc.prems have "n div 10 < 10 ^ w"
    by (simp add: less_mult_imp_div_less mult.commute)
  from Suc.IH [OF this] show ?case
    by (simp add: parse_nat_def digit_value_digit_char)
qed

lemma take_digits_fixed_digits:
  "n < 10 ^ w \<Longrightarrow> take_digits w (fixed_digits w n @ rest) = Some (n, rest)"
  by (simp add: take_digits_def all_digits_fixed_digits parse_nat_fixed_digits length_fixed_digits)

lemma expect_Cons: "expect c (c # rest) = Some rest"
  by (simp add: expect_def)

lemma fixed_digits_Cons:
  "0 < w \<Longrightarrow> \<exists>c cs. fixed_digits w n = c # cs \<and> is_digit c"
  using all_digits_fixed_digits [of w n] length_fixed_digits [of w n]
  by (cases "fixed_digits w n") auto

lemma parse_year_four_digits:
  assumes "0 \<le> y" and "y \<le> 9999"
  shows "parse_year (year_string y @ rest) = Some (y, rest)"
proof -
  obtain c cs where c: "fixed_digits 4 (nat y) = c # cs" "is_digit c"
    using fixed_digits_Cons [of 4 "nat y"] by auto
  have t: "take_digits 4 (fixed_digits 4 (nat y) @ rest) = Some (nat y, rest)"
    using assms by (intro take_digits_fixed_digits) simp
  have "parse_year (fixed_digits 4 (nat y) @ rest) = Some (y, rest)"
    using is_digit_not_sign [OF c(2)] t assms(1)
    by (simp add: parse_year_def c(1))
  with assms show ?thesis by (simp add: year_string_def)
qed

lemma days_in_month_le: "days_in_month y m \<le> 31"
  by (simp add: days_in_month_def)

lemma Date_parse_iso_toISOString:
  assumes "printable_date d" and "toISOString d = Inr s"
  shows "Date_parse_iso s = Some d"
proof (cases d)
  case InvalidDate
  with assms show ?thesis by simp
next
  case (UTCDate y mo dd h mi sec ms)
  with assms(1) have v: "valid_fields y mo dd h mi sec ms" and y: "0 \<le> y" "y \<le> 9999"
    by simp_all
  from v days_in_month_le [of y mo]
  have b: "mo < 10 ^ 2" "dd < 10 ^ 2" "h < 10 ^ 2" "mi < 10 ^ 2" "sec < 10 ^ 2" "ms < 10 ^ 3"
    by (simp_all add: valid_fields_def)
  from assms(2) UTCDate have s: "s = year_string y @ CHR ''-'' # fixed_digits 2 mo @ CHR ''-'' # fixed_digits 2 dd
          @ CHR ''T'' # fixed_digits 2 h @ CHR '':'' # fixed_digits 2 mi @ CHR '':'' # fixed_digits 2 sec
          @ CHR ''.'' # fixed_digits 3 ms @ [CHR ''Z'']"
    by simp
  show ?thesis
    unfolding s Date_parse_iso_def
    by (simp only: parse_year_four_digits [OF y] take_digits_fixed_digits [OF b(1)]
        take_digits_fixed_digits [OF b(2)] take_digits_fixed_digits [OF b(3)]
        take_digits_fixed_digits [OF b(4)] take_digits_fixed_digits [OF b(5)]
        take_digits_fixed_digits [OF b(6)] expect_Cons bind.bind_lunit prod.case v UTCDate
        simp_thms if_True)
qed

lemma match_prefix_digits:
  "match_prefix (replicate w D @ ps) (fixed_digits w n @ s) = match_prefix ps s"
proof -
  have "list_all is_digit xs \<Longrightarrow> match_prefix (replicate (length xs) D @ ps) (xs @ s) = match_prefix ps s"
    for xs
    by (induction xs) simp_all
  from this [OF all_digits_fixed_digits [of w n]] show ?thesis
    by (simp add: length_fixed_digits)
qed

lemma ISO_DATE_REGEX_replicate:
  "ISO_DATE_REGEX =
     replicate 4 D @ L (CHR ''-'') # replicate 2 D @ L (CHR ''-'') # replicate 2 D @ L (CHR ''T'')
       # replicate 2 D @ L (CHR '':'') # replicate 2 D @ L (CHR '':'') # replicate 2 D @ []"
  by (simp add: ISO_DATE_REGEX_def numeral_eq_Suc)

lemma ISO_DATE_REGEX_test_toISOString:
  assumes "printable_date d" and "toISOString d = Inr s"
  shows "ISO_DATE_REGEX_test s"
proof (cases d)
  case InvalidDate
  with assms show ?thesis by simp
next
  case (UTCDate y mo dd h mi sec ms)
  with assms(1) have y: "year_string y = fixed_digits 4 (nat y)"
    by (simp add: year_string_def)
  from assms(2) UTCDate have s: "s = fixed_digits 4 (nat y) @ CHR ''-'' # fixed_digits 2 mo @ CHR ''-'' # fixed_digits 2 dd
          @ CHR ''T'' # fixed_digits 2 h @ CHR '':'' # fixed_digits 2 mi @ CHR '':'' # fixed_digits 2 sec
          @ CHR ''.'' # fixed_digits 3 ms @ [CHR ''Z'']"
    by (simp add: y)
  show ?thesis
    unfolding ISO_DATE_REGEX_test_def ISO_DATE_REGEX_replicate s
    by (simp only: match_prefix_digits match_prefix.simps simp_thms)
qed

lemma Date_new_toISOString:
  "printable_date d \<Longrightarrow> toISOString d = Inr s \<Longrightarrow> Date_new rt s = d"
  by (simp add: Date_new_def Date_parse_iso_toISOString)

lemma toISOString_printable: "printable_date d \<Longrightarrow> \<exists>s. toISOString d = Inr s"
  by (cases d) simp_all

subsection \<open>The round trip of the codec\<close>

lemma upsert_fresh: "k \<notin> fst ` set acc \<Longrightarrow> upsert k v acc = acc @ [(k, v)]"
  by (induction acc) auto

lemma fold_upsert_distinct:
  "distinct (map fst (acc @ es)) \<Longrightarrow> fold (\<lambda>(k, v) acc. upsert k v acc) es acc = acc @ es"
proof (induction es arbitrary: acc)
  case Nil
  then show ?case by simp
next
  case (Cons e es)
  obtain k v where e: "e = (k, v)" by (cases e)
  from Cons.prems e have fresh: "k \<notin> fst ` set acc" by auto
  from Cons.prems e have "distinct (map fst ((acc @ [(k, v)]) @ es))" by simp
  from Cons.IH [OF this] show ?case
    by (simp add: e upsert_fresh [OF fresh])
qed

lemma Object_fromEntries_distinct: "distinct (map fst es) \<Longrightarrow> Object_fromEntries es = JObj es"
  using fold_upsert_distinct [of "[]" es] by (simp add: Object_fromEntries_def)

lemma transformDates_plain:
  "plain v \<longrightarrow> distinct_keys v \<longrightarrow> transformDates v = Inr v"
  "plain_list xs \<longrightarrow> distinct_keys_list xs \<longrightarrow> transformDates_list xs = Inr xs"
  "plain_entries kvs \<longrightarrow> distinct_keys_entries kvs \<longrightarrow> transformDates_entries kvs = Inr kvs"
  by (induction v and xs and kvs rule: transformDates_transformDates_list_transformDates_entries.induct)
     (simp_all add: Object_fromEntries_distinct)

lemma transformDates_nullish: "is_nullish v \<Longrightarrow> transformDates v = Inr v"
  by (auto simp add: is_nullish_def)

lemma restore_nullish: "is_nullish v \<Longrightarrow> restoreTypesInternal S rt v m = Inr v"
  by (auto simp add: is_nullish_def)

lemma nullish_not_string: "is_nullish v \<Longrightarrow> typeof v \<noteq> TString"
  by (auto simp add: is_nullish_def)

text \<open>What \<open>restore_entries\<close> does with one entry, branch by branch.\<close>

lemma restore_entries_Cons:
  assumes "restore_entries S rt es m = Inr kvs"
  shows "k \<in> getDateTimeFields S m \<Longrightarrow> ISO_DATE_REGEX_test s \<Longrightarrow>
           restore_entries S rt ((k, JStr s) # es) m = Inr ((k, JDate (Date_new rt s)) # kvs)"
    and "is_nullish v \<Longrightarrow> restore_entries S rt ((k, v) # es) m = Inr ((k, v) # kvs)"
    and "k \<notin> getDateTimeFields S m \<Longrightarrow> k \<in> getDecimalFields S m \<Longrightarrow> PrismaDecimal rt = Some ctor \<Longrightarrow>
           ctor (JStr s) = Inr d \<Longrightarrow>
           restore_entries S rt ((k, JStr s) # es) m = Inr ((k, d) # kvs)"
    and "k \<notin> getDateTimeFields S m \<Longrightarrow> k \<notin> getDecimalFields S m \<Longrightarrow>
           is_relation (getModelFields S m) k \<Longrightarrow>
           restoreTypesInternal S rt f (type_of_field (getModelFields S m) k) = Inr v \<Longrightarrow>
           restore_entries S rt ((k, f) # es) m = Inr ((k, v) # kvs)"
    and "k \<notin> getDateTimeFields S m \<Longrightarrow> k \<notin> getDecimalFields S m \<Longrightarrow>
           \<not> is_relation (getModelFields S m) k \<Longrightarrow>
           restore_entries S rt ((k, v) # es) m = Inr ((k, v) # kvs)"
proof -
  show "k \<in> getDateTimeFields S m \<Longrightarrow> ISO_DATE_REGEX_test s \<Longrightarrow>
           restore_entries S rt ((k, JStr s) # es) m = Inr ((k, JDate (Date_new rt s)) # kvs)"
    using assms by simp
  show "is_nullish v \<Longrightarrow> restore_entries S rt ((k, v) # es) m = Inr ((k, v) # kvs)"
    using assms by (simp add: nullish_not_string)
  show "k \<notin> getDateTimeFields S m \<Longrightarrow> k \<in> getDecimalFields S m \<Longrightarrow> PrismaDecimal rt = Some ctor \<Longrightarrow>
           ctor (JStr s) = Inr d \<Longrightarrow>
           restore_entries S rt ((k, JStr s) # es) m = Inr ((k, d) # kvs)"
    using assms by (simp add: is_nullish_def)
  show "k \<notin> getDateTimeFields S m \<Longrightarrow> k \<notin> getDecimalFields S m \<Longrightarrow>
           is_relation (getModelFields S m) k \<Longrightarrow>
           restoreTypesInternal S rt f (type_of_field (getModelFields S m) k) = Inr v \<Longrightarrow>
           restore_entries S rt ((k, f) # es) m = Inr ((k, v) # kvs)"
    using assms restore_nullish [of f S rt "type_of_field (getModelFields S m) k"]
    by (cases "is_nullish f") simp_all
  show "k \<notin> getDateTimeFields S m \<Longrightarrow> k \<notin> getDecimalFields S m \<Longrightarrow>
           \<not> is_relation (getModelFields S m) k \<Longrightarrow>
           restore_entries S rt ((k, v) # es) m = Inr ((k, v) # kvs)"
    using assms by simp
qed

text \<open>One entry of a described mapping: what it is frozen to is restored to the entry.\<close>

lemma entry_round_trip:
  assumes ih: "\<And>m'. distinct_keys v \<longrightarrow> described S rt m' v \<longrightarrow>
                 (\<exists>f. transformDates v = Inr f \<and> restoreTypesInternal S rt f m' = Inr v)"
      and dk: "distinct_keys v"
      and d: "if k \<in> getDateTimeFields S m then is_nullish v \<or> is_printable_date v
              else if k \<in> getDecimalFields S m then is_nullish v \<or> decimal_restorable rt v
              else if is_relation (getModelFields S m) k
              then described S rt (type_of_field (getModelFields S m) k) v
              else plain v"
      and rest: "restore_entries S rt es m = Inr kvs"
  shows "\<exists>f. transformDates v = Inr f \<and> restore_entries S rt ((k, f) # es) m = Inr ((k, v) # kvs)"
proof (cases "is_nullish v")
  case True
  then show ?thesis
    using transformDates_nullish [OF True] restore_entries_Cons(2) [OF rest True] by blast
next
  case nn: False
  show ?thesis
  proof (cases "k \<in> getDateTimeFields S m")
    case True
    with d nn obtain dt where v: "v = JDate dt" and p: "printable_date dt"
      by (cases v) auto
    from toISOString_printable [OF p] obtain s where s: "toISOString dt = Inr s" by blast
    have "transformDates v = Inr (JStr s)" by (simp add: v s)
    moreover have "restore_entries S rt ((k, JStr s) # es) m = Inr ((k, v) # kvs)"
      using restore_entries_Cons(1) [OF rest True ISO_DATE_REGEX_test_toISOString [OF p s]]
      by (simp add: v Date_new_toISOString [OF p s])
    ultimately show ?thesis by blast
  next
    case ndt: False
    show ?thesis
    proof (cases "k \<in> getDecimalFields S m")
      case True
      with d nn ndt have "decimal_restorable rt v" by simp
      then obtain ctor s ps where c: "PrismaDecimal rt = Some ctor" "v = JDecimal s ps"
          "ctor (JStr s) = Inr v"
        by (auto simp add: decimal_restorable_def split: option.splits jsval.splits)
      have "transformDates v = Inr (JStr s)" by (simp add: c(2))
      moreover have "restore_entries S rt ((k, JStr s) # es) m = Inr ((k, v) # kvs)"
        by (rule restore_entries_Cons(3) [OF rest ndt True c(1) c(3)])
      ultimately show ?thesis by blast
    next
      case ndec: False
      show ?thesis
      proof (cases "is_relation (getModelFields S m) k")
        case True
        with d ndt ndec have "described S rt (type_of_field (getModelFields S m) k) v" by simp
        with ih dk obtain f where f: "transformDates v = Inr f"
            "restoreTypesInternal S rt f (type_of_field (getModelFields S m) k) = Inr v"
          by blast
        from restore_entries_Cons(4) [OF rest ndt ndec True f(2)] f(1) show ?thesis by blast
      next
        case False
        with d ndt ndec have "plain v" by simp
        with dk have "transformDates v = Inr v" using transformDates_plain(1) by blast
        with restore_entries_Cons(5) [OF rest ndt ndec False] show ?thesis by blast
      qed
    qed
  qed
qed

lemma round_trip_all:
  "\<forall>m. distinct_keys v \<longrightarrow> described S rt m v \<longrightarrow>
     (\<exists>f. transformDates v = Inr f \<and> restoreTypesInternal S rt f m = Inr v)"
  "\<forall>m. distinct_keys_list xs \<longrightarrow> described_list S rt m xs \<longrightarrow>
     (\<exists>fs. transformDates_list xs = Inr fs \<and> restore_list S rt fs m = Inr xs)"
  "\<forall>m. distinct_keys_entries kvs \<longrightarrow> described_entries S rt m kvs \<longrightarrow>
     (\<exists>es. transformDates_entries kvs = Inr es \<and> map fst es = map fst kvs
           \<and> restore_entries S rt es m = Inr kvs)"
proof (induction v and xs and kvs rule: transformDates_transformDates_list_transformDates_entries.induct)
  case (5 xs)
  show ?case
  proof (intro allI impI)
    fix m
    assume "distinct_keys (JArr xs)" "described S rt m (JArr xs)"
    with 5 obtain fs where "transformDates_list xs = Inr fs" "restore_list S rt fs m = Inr xs"
      by auto
    then show "\<exists>f. transformDates (JArr xs) = Inr f \<and> restoreTypesInternal S rt f m = Inr (JArr xs)"
      by simp
  qed
next
  case (6 kvs)
  show ?case
  proof (intro allI impI)
    fix m
    assume a: "distinct_keys (JObj kvs)" "described S rt m (JObj kvs)"
    with 6 obtain es where es: "transformDates_entries kvs = Inr es" "map fst es = map fst kvs"
        "restore_entries S rt es m = Inr kvs"
      by auto
    from a(1) es(2) have "distinct (map fst es)" "distinct (map fst kvs)" by simp_all
    with es show "\<exists>f. transformDates (JObj kvs) = Inr f \<and> restoreTypesInternal S rt f m = Inr (JObj kvs)"
      by (simp add: Object_fromEntries_distinct)
  qed
next
  case (11 x xs)
  show ?case
  proof (intro allI impI)
    fix m
    assume a: "distinct_keys_list (x # xs)" "described_list S rt m (x # xs)"
    with 11(1) obtain f where f: "transformDates x = Inr f" "restoreTypesInternal S rt f m = Inr x"
      by auto
    from 11(2) [OF f(1)] a obtain fs where
      fs: "transformDates_list xs = Inr fs" "restore_list S rt fs m = Inr xs"
      by auto
    from f fs show "\<exists>fs. transformDates_list (x # xs) = Inr fs \<and> restore_list S rt fs m = Inr (x # xs)"
      by simp
  qed
next
  case (13 k v kvs)
  show ?case
  proof (intro allI impI)
    fix m
    assume a: "distinct_keys_entries ((k, v) # kvs)" "described_entries S rt m ((k, v) # kvs)"
    then have dk: "distinct_keys v"
      and d: "if k \<in> getDateTimeFields S m then is_nullish v \<or> is_printable_date v
              else if k \<in> getDecimalFields S m then is_nullish v \<or> decimal_restorable rt v
              else if is_relation (getModelFields S m) k
              then described S rt (type_of_field (getModelFields S m) k) v
              else plain v"
      by simp_all
    have ih: "\<And>m'. distinct_keys v \<longrightarrow> described S rt m' v \<longrightarrow>
                 (\<exists>f. transformDates v = Inr f \<and> restoreTypesInternal S rt f m' = Inr v)"
      using 13(1) by blast
    from ih dk d obtain f0 where f0: "transformDates v = Inr f0"
      using entry_round_trip [OF ih dk d, of "[]" "[]"] by auto
    from 13(2) [OF f0] a obtain es where
      es: "transformDates_entries kvs = Inr es" "map fst es = map fst kvs"
          "restore_entries S rt es m = Inr kvs"
      by auto
    from entry_round_trip [OF ih dk d es(3)] f0
    have "restore_entries S rt ((k, f0) # es) m = Inr ((k, v) # kvs)" by auto
    with f0 es show "\<exists>es. transformDates_entries ((k, v) # kvs) = Inr es
        \<and> map fst es = map fst ((k, v) # kvs)
        \<and> restore_entries S rt es m = Inr ((k, v) # kvs)"
      by simp
  qed
qed simp_all

text \<open>
  C2, as the code has it. Let \<open>v\<close> be a value whose objects have distinct keys and that
  the model \<open>m\<close> describes: its dates are valid, have a UTC year from 0 to 9999 and sit
  under \<open>DateTime\<close> fields (of \<open>m\<close>, or of the related model under a relation field).
  Then \<open>transformDates\<close> succeeds on \<open>v\<close> and \<open>restoreDates\<close> gives \<open>v\<close> back.
\<close>

theorem freeze_thaw_round_trip:
  assumes "distinct_keys v" and "described S rt m v"
  shows "\<exists>f. transformDates v = Inr f \<and> restoreDates S rt f m = Inr v"
  using round_trip_all(1) [of v S rt] assms by (simp add: restoreDates_def)

subsection \<open>The codec on the examples\<close>

lemma fixed_digits_2: "fixed_digits 2 n = [digit_char (n div 10 mod 10), digit_char (n mod 10)]"
proof -
  have "(2::nat) = Suc (Suc 0)" by simp
  then show ?thesis by (simp only: fixed_digits.simps) simp
qed

lemma fixed_digits_3:
  "fixed_digits 3 n =
     [digit_char (n div 10 div 10 mod 10), digit_char (n div 10 mod 10), digit_char (n mod 10)]"
proof -
  have "(3::nat) = Suc (Suc (Suc 0))" by simp
  then show ?thesis by (simp only: fixed_digits.simps) simp
qed

lemma fixed_digits_4:
  "fixed_digits 4 n =
     [digit_char (n div 10 div 10 div 10 mod 10), digit_char (n div 10 div 10 mod 10),
      digit_char (n div 10 mod 10), digit_char (n mod 10)]"
proof -
  have "(4::nat) = Suc (Suc (Suc (Suc 0)))" by simp
  then show ?thesis by (simp only: fixed_digits.simps) simp
qed

lemma fixed_digits_6:
  "fixed_digits 6 n =
     [digit_char (n div 10 div 10 div 10 div 10 div 10 mod 10),
      digit_char (n div 10 div 10 div 10 div 10 mod 10),
      digit_char (n div 10 div 10 div 10 mod 10), digit_char (n div 10 div 10 mod 10),
      digit_char (n div 10 mod 10), digit_char (n mod 10)]"
proof -
  have "(6::nat) = Suc (Suc (Suc (Suc (Suc (Suc 0)))))" by simp
  then show ?thesis by (simp only: fixed_digits.simps) simp
qed

lemma digit_chars:
  "digit_char 0 = CHR ''0''" "digit_char 1 = CHR ''1''" "digit_char (Suc 0) = CHR ''1''"
  "digit_char 2 = CHR ''2''" "digit_char 3 = CHR ''3''" "digit_char 4 = CHR ''4''"
  "digit_char 5 = CHR ''5''" "digit_char 6 = CHR ''6''" "digit_char 7 = CHR ''7''"
  "digit_char 8 = CHR ''8''" "digit_char 9 = CHR ''9''"
  by code_simp+

lemma late_string_no_match: "\<not> ISO_DATE_REGEX_test ''+010000-01-01T00:00:00.000Z''"
  by (simp add: ISO_DATE_REGEX_test_def ISO_DATE_REGEX_def is_digit_def)

lemma post_rows_distinct_keys: "distinct_keys post_rows"
  by (simp add: post_rows_def)

lemma Post_fields:
  "getDateTimeFields test_schema ''Post'' = {''createdAt''}"
  "getDecimalFields test_schema ''Post'' = {}"
  "is_relation (getModelFields test_schema ''Post'') ''id'' = False"
  "is_relation (getModelFields test_schema ''Post'') ''title'' = False"
  "is_relation (getModelFields test_schema ''Post'') ''author'' = True"
  "type_of_field (getModelFields test_schema ''Post'') ''author'' = ''User''"
  by code_simp+

lemma User_fields:
  "getDateTimeFields test_schema ''User'' = {''createdAt''}"
  "getDecimalFields test_schema ''User'' = {}"
  "is_relation (getModelFields test_schema ''User'') ''id'' = False"
  "is_relation (getModelFields test_schema ''User'') ''name'' = False"
  by code_simp+

lemma post_rows_described: "described test_schema route_runtime ''Post'' post_rows"
  by (simp add: post_rows_def Post_fields User_fields is_nullish_def valid_fields_def
      days_in_month_def)

lemma post_rows_frozen: "transformDates post_rows = Inr frozen_post_rows"
  by (simp add: post_rows_def frozen_post_rows_def Object_fromEntries_def year_string_def
      fixed_digits_2 fixed_digits_3 fixed_digits_4 digit_chars)

theorem freeze_thaw_round_trip_witness:
  "distinct_keys post_rows \<and> described test_schema route_runtime ''Post'' post_rows
   \<and> transformDates post_rows = Inr frozen_post_rows
   \<and> restoreDates test_schema route_runtime frozen_post_rows ''Post'' = Inr post_rows"
proof -
  from freeze_thaw_round_trip [OF post_rows_distinct_keys post_rows_described]
  obtain f where f: "transformDates post_rows = Inr f"
      "restoreDates test_schema route_runtime f ''Post'' = Inr post_rows"
    by blast
  from f(1) post_rows_frozen have "f = frozen_post_rows" by simp
  with f(2) post_rows_distinct_keys post_rows_described post_rows_frozen show ?thesis by simp
qed

lemma late_user_frozen: "transformDates late_user = Inr frozen_late_user"
  by (simp add: late_user_def frozen_late_user_def Object_fromEntries_def year_string_def
      fixed_digits_2 fixed_digits_3 fixed_digits_6 digit_chars)

lemma late_user_restored:
  "restoreDates test_schema route_runtime frozen_late_user ''User'' = Inr frozen_late_user"
  by (simp add: restoreDates_def frozen_late_user_def User_fields late_string_no_match
      Object_fromEntries_def is_nullish_def)

text \<open>
  The claim C2 as stated fails for a date after the year 9999. The field \<open>createdAt\<close> of
  \<open>User\<close> has the type \<open>DateTime\<close> and holds a valid date; \<open>toISOString\<close> prints it with
  the expanded year \<open>+010000\<close>, which \<open>ISO_DATE_REGEX\<close> does not match, and \<open>restoreDates\<close>
  leaves the string where the date was.
\<close>

theorem freeze_thaw_round_trip_counterexample:
  "''createdAt'' \<in> getDateTimeFields test_schema ''User''
   \<and> valid_date (UTCDate 10000 1 1 0 0 0 0)
   \<and> distinct_keys late_user
   \<and> transformDates late_user = Inr frozen_late_user
   \<and> restoreDates test_schema route_runtime frozen_late_user ''User'' = Inr frozen_late_user
   \<and> frozen_late_user \<noteq> late_user"
proof -
  have "valid_date (UTCDate 10000 1 1 0 0 0 0)"
    by (simp add: valid_fields_def days_in_month_def)
  moreover have "distinct_keys late_user" by (simp add: late_user_def)
  moreover have "frozen_late_user \<noteq> late_user"
    by (simp add: late_user_def frozen_late_user_def)
  ultimately show ?thesis
    using late_user_frozen late_user_restored by (simp add: User_fields)
qed

text \<open>An invalid date makes \<open>transformDates\<close> throw.\<close>

lemma transformDates_invalid_date:
  "transformDates (JObj [(''createdAt'', JDate InvalidDate)]) = Inl RangeError"
  by simp

end
